theory Spec2Isabelle
  imports Main "HOL-Library.Sublist"
begin

section \<open>JavaScript strings and the built-ins the agent uses\<close>

text \<open>
  A JavaScript string is its sequence of UTF-16 code units; a code unit is a natural
  number below 65536. \<open>js\<close> turns an ASCII literal into that sequence.
\<close>

type_synonym jsstring = "nat list"

definition js :: "string \<Rightarrow> jsstring" where
  "js s = map of_char s"

text \<open>
  \<open>isSpace\<close> is the class \<^verbatim>\<open>\s\<close> of a regular expression and the set
  \<^verbatim>\<open>String.prototype.trim\<close> removes: WhiteSpace and LineTerminator of ECMAScript
  (TAB, LF, VT, FF, CR, SP, NBSP, U+1680, U+2000..U+200A, U+2028, U+2029, U+202F,
  U+205F, U+3000, U+FEFF). \<open>isWord\<close> is \<^verbatim>\<open>\w\<close>: \<^verbatim>\<open>[A-Za-z0-9_]\<close>.
\<close>

definition isSpace :: "nat \<Rightarrow> bool" where
  "isSpace c = (c = 9 \<or> c = 10 \<or> c = 11 \<or> c = 12 \<or> c = 13 \<or> c = 32 \<or> c = 160
      \<or> c = 5760 \<or> (8192 \<le> c \<and> c \<le> 8202) \<or> c = 8232 \<or> c = 8233 \<or> c = 8239
      \<or> c = 8287 \<or> c = 12288 \<or> c = 65279)"

definition isWord :: "nat \<Rightarrow> bool" where
  "isWord c = ((48 \<le> c \<and> c \<le> 57) \<or> (65 \<le> c \<and> c \<le> 90) \<or> c = 95 \<or> (97 \<le> c \<and> c \<le> 122))"

text \<open>\<^verbatim>\<open>s.trim()\<close>\<close>

definition js_trim :: "jsstring \<Rightarrow> jsstring" where
  "js_trim s = rev (dropWhile isSpace (rev (dropWhile isSpace s)))"

text \<open>\<^verbatim>\<open>s.split(sep)\<close> for a separator of one code unit: never an empty array.\<close>

fun js_split :: "nat \<Rightarrow> jsstring \<Rightarrow> jsstring list" where
  "js_split sep [] = [[]]"
| "js_split sep (c # cs) =
     (if c = sep then [] # js_split sep cs
      else (case js_split sep cs of [] \<Rightarrow> [[c]] | t # ts \<Rightarrow> (c # t) # ts))"

text \<open>\<^verbatim>\<open>parts.join(' ')\<close>\<close>

fun js_join :: "jsstring \<Rightarrow> jsstring list \<Rightarrow> jsstring" where
  "js_join sep [] = []"
| "js_join sep [p] = p"
| "js_join sep (p # q # ps) = p @ sep @ js_join sep (q # ps)"

text \<open>\<^verbatim>\<open>s.includes(sub)\<close>: \<open>sub\<close> occurs in \<open>s\<close> at some position.\<close>

fun js_includes :: "jsstring \<Rightarrow> jsstring \<Rightarrow> bool" where
  "js_includes [] sub = (sub = [])"
| "js_includes (c # cs) sub = (prefix sub (c # cs) \<or> js_includes cs sub)"

text \<open>
  Numbers. \<open>Num n\<close> is the Number that stands for the integer \<open>n\<close> (the double nearest
  to it; \<open>+0\<close> and \<open>-0\<close> are both \<open>Num 0\<close>), \<open>NaN\<close> is not-a-number. A Number is
  falsy exactly when it is \<open>NaN\<close> or zero.
\<close>

datatype jsnum = NaN | Num int

definition truthy_num :: "jsnum \<Rightarrow> bool" where
  "truthy_num x = (case x of NaN \<Rightarrow> False | Num n \<Rightarrow> n \<noteq> 0)"

text \<open>The value of a code unit as a digit of radix \<open>R\<close>, if it is one.\<close>

definition digitVal :: "nat \<Rightarrow> nat \<Rightarrow> nat option" where
  "digitVal R c =
     (let v = (if 48 \<le> c \<and> c \<le> 57 then Some (c - 48)
               else if 97 \<le> c \<and> c \<le> 122 then Some (c - 87)
               else if 65 \<le> c \<and> c \<le> 90 then Some (c - 55)
               else None)
      in case v of None \<Rightarrow> None | Some d \<Rightarrow> if d < R then Some d else None)"

text \<open>
  \<^verbatim>\<open>parseInt(a)\<close> with no radix, as ECMAScript defines it: \<open>None\<close> is the argument
  \<^verbatim>\<open>undefined\<close>, which is converted to the string \<^verbatim>\<open>"undefined"\<close>. Leading white
  space is skipped, a sign is read, a prefix \<^verbatim>\<open>0x\<close> or \<^verbatim>\<open>0X\<close> selects radix 16,
  and the longest prefix of digits is the value; no digit gives \<open>NaN\<close>.
\<close>

definition js_parseInt :: "jsstring option \<Rightarrow> jsnum" where
  "js_parseInt a =
     (let inputString = (case a of None \<Rightarrow> js ''undefined'' | Some s \<Rightarrow> s);
          S = dropWhile isSpace inputString;
          neg = (case S of [] \<Rightarrow> False | c # _ \<Rightarrow> c = 45);
          S1 = (case S of [] \<Rightarrow> [] | c # t \<Rightarrow> if c = 43 \<or> c = 45 then t else S);
          hex = (case S1 of c # d # _ \<Rightarrow> c = 48 \<and> (d = 120 \<or> d = 88) | _ \<Rightarrow> False);
          R = (if hex then 16 else 10);
          S2 = (if hex then drop 2 S1 else S1);
          Z = takeWhile (\<lambda>c. digitVal R c \<noteq> None) S2;
          mathInt = foldl (\<lambda>acc c. acc * R + (case digitVal R c of None \<Rightarrow> 0 | Some d \<Rightarrow> d)) 0 Z
      in if Z = [] then NaN
         else Num ((if neg then - 1 else 1) * int mathInt))"

text \<open>Decimal text of a number, as a template literal prints it.\<close>

fun str_nat :: "nat \<Rightarrow> jsstring" where
  "str_nat n = (if n < 10 then [48 + n] else str_nat (n div 10) @ [48 + n mod 10])"

declare str_nat.simps [simp del]

definition str_int :: "int \<Rightarrow> jsstring" where
  "str_int i = (if i < 0 then 45 # str_nat (nat (- i)) else str_nat (nat i))"

section \<open>The Call Extractor: the two regular expressions of parseAndExecuteTools\<close>

text \<open>The alternatives of the first pattern, in the order the pattern lists them.\<close>

definition toolNames :: "jsstring list" where
  "toolNames = map js [''readFile'', ''writeFile'', ''editFile'', ''executeCommand'',
     ''listFiles'', ''listEmails'', ''getEmail'', ''sendEmail'', ''createDraft'',
     ''searchEmails'', ''getUnreadEmails'', ''markAsRead'', ''deleteEmail'',
     ''getEmailContext'', ''analyzeEmailThread'']"

text \<open>
  The tail \<^verbatim>\<open>\s*\([^)]+\)\<close> of both patterns, matched at the head of \<open>s\<close>: the white
  space, the argument text and what follows the closing parenthesis. Each greedy
  quantifier is followed by a code unit outside its class (\<open>40\<close> is the opening and
  \<open>41\<close> the closing parenthesis), so only the longest run can match and backtracking
  finds nothing else. \<^verbatim>\<open>[^)]\<close> matches every code unit but \<open>41\<close>, line ends included.
\<close>

definition match_args :: "jsstring \<Rightarrow> (jsstring \<times> jsstring \<times> jsstring) option" where
  "match_args s =
     (let ws = takeWhile isSpace s in
      case dropWhile isSpace s of
        [] \<Rightarrow> None
      | c # s2 \<Rightarrow>
          if c \<noteq> 40 then None
          else let as = takeWhile (\<lambda>c. c \<noteq> 41) s2 in
            (case dropWhile (\<lambda>c. c \<noteq> 41) s2 of
               [] \<Rightarrow> None
             | _ # rest \<Rightarrow> if as = [] then None else Some (ws, as, rest)))"

text \<open>
  The alternation at the head of \<open>s\<close>: the alternatives are tried in order, and the
  next one is tried when the rest of the pattern fails after a name. The result is the
  matched text and what follows it.
\<close>

fun match_names :: "jsstring list \<Rightarrow> jsstring \<Rightarrow> (jsstring \<times> jsstring) option" where
  "match_names [] s = None"
| "match_names (n # ns) s =
     (if prefix n s then
        (case match_args (drop (length n) s) of
           Some (ws, as, rest) \<Rightarrow> Some (n @ ws @ [40] @ as @ [41], rest)
         | None \<Rightarrow> match_names ns s)
      else match_names ns s)"

lemma match_args_shorter:
  assumes "match_args s = Some (ws, as, rest)"
  shows "length rest < length s"
proof -
  from assms obtain c s2 where d: "dropWhile isSpace s = c # s2"
    by (auto simp: match_args_def Let_def split: list.splits if_splits)
  from assms d obtain x where r: "dropWhile (\<lambda>c. c \<noteq> 41) s2 = x # rest"
    by (auto simp: match_args_def Let_def split: list.splits if_splits)
  have "length (dropWhile (\<lambda>c. c \<noteq> 41) s2) \<le> length s2"
    by (rule length_dropWhile_le)
  with r have "length rest < length (c # s2)" by simp
  moreover have "length (dropWhile isSpace s) \<le> length s"
    by (rule length_dropWhile_le)
  ultimately show ?thesis using d by simp
qed

lemma match_names_shorter:
  "match_names ns s = Some (m, rest) \<Longrightarrow> length rest < length s"
  by (induction ns) (auto split: if_splits option.splits dest: match_args_shorter)

text \<open>
  \<^verbatim>\<open>response.match(/\b(readFile|...)\s*\([^)]+\)/g)\<close>: every match, left to right. \<open>prev\<close>
  is the code unit before the current position (\<open>None\<close> at the start of the text), for
  the word boundary \<^verbatim>\<open>\b\<close>; after a match the scan goes on behind it, where the
  previous code unit is the closing parenthesis.
\<close>

function scan :: "nat option \<Rightarrow> jsstring \<Rightarrow> jsstring list" where
  "scan prev [] = []"
| "scan prev (c # cs) =
     (if (case prev of None \<Rightarrow> False | Some p \<Rightarrow> isWord p) \<noteq> isWord c then
        (case match_names toolNames (c # cs) of
           Some (m, rest) \<Rightarrow> m # scan (Some 41) rest
         | None \<Rightarrow> scan (Some c) cs)
      else scan (Some c) cs)"
  by pat_completeness auto
termination scan
  by (relation "measure (\<lambda>(p, s). length s)") (auto dest: match_names_shorter)

text \<open>\<open>null\<close> of the source is the empty list here: the loop runs over no call.\<close>

definition toolCalls :: "jsstring \<Rightarrow> jsstring list" where
  "toolCalls response = scan None response"

text \<open>
  \<^verbatim>\<open>toolCall.match(/(\w+)\s*\(([^)]+)\)/)\<close>: the first match in \<open>toolCall\<close>, as the two
  groups (function name, argument text). \<^verbatim>\<open>\w+\<close> is followed by a code unit that is
  not a word character, so only the longest run of word characters can match.
\<close>

definition match_call_at :: "jsstring \<Rightarrow> (jsstring \<times> jsstring) option" where
  "match_call_at s =
     (let w = takeWhile isWord s in
      if w = [] then None
      else (case match_args (dropWhile isWord s) of
              None \<Rightarrow> None
            | Some (ws, as, rest) \<Rightarrow> Some (w, as)))"

fun match_call :: "jsstring \<Rightarrow> (jsstring \<times> jsstring) option" where
  "match_call [] = None"
| "match_call (c # cs) =
     (case match_call_at (c # cs) of
        Some r \<Rightarrow> Some r
      | None \<Rightarrow> match_call cs)"

text \<open>
  \<^verbatim>\<open>argsStr.split(',').map(arg => arg.trim().replace(/['"]/g, ''))\<close>: \<open>44\<close> is the comma,
  \<open>39\<close> and \<open>34\<close> are the two quote characters.
\<close>

definition strip_quotes :: "jsstring \<Rightarrow> jsstring" where
  "strip_quotes s = filter (\<lambda>c. c \<noteq> 39 \<and> c \<noteq> 34) s"

definition parse_args :: "jsstring \<Rightarrow> jsstring list" where
  "parse_args argsStr = map (\<lambda>arg. strip_quotes (js_trim arg)) (js_split 44 argsStr)"

text \<open>The calls of a response, as (function name, arguments), in the order the loop runs them.\<close>

definition extractCalls :: "jsstring \<Rightarrow> (jsstring \<times> jsstring list) list" where
  "extractCalls response =
     concat (map (\<lambda>toolCall. case match_call toolCall of
                                None \<Rightarrow> []
                              | Some (funcName, argsStr) \<Rightarrow> [(funcName, parse_args argsStr)])
                 (toolCalls response))"

section \<open>The Safety Gate: CommandTools.isSafeCommand\<close>

definition dangerousCommands :: "jsstring list" where
  "dangerousCommands = map js [''rm -rf'', ''format'', ''dd'', ''mkfs'', ''fdisk'',
     ''shutdown'', ''reboot'', ''halt'', ''poweroff'']"

text \<open>
  \<^verbatim>\<open>String.prototype.toLowerCase\<close> follows the Unicode case tables, which are not part
  of the repository: it is the parameter \<open>lower\<close>.
\<close>

definition isSafeCommand :: "(jsstring \<Rightarrow> jsstring) \<Rightarrow> jsstring \<Rightarrow> bool" where
  "isSafeCommand lower command =
     (let lowerCommand = lower command
      in \<not> list_ex (\<lambda>dangerous. js_includes lowerCommand (lower dangerous)) dangerousCommands)"

text \<open>Lower-casing of ASCII text, which is what \<open>toLowerCase\<close> does on ASCII.\<close>

definition ascii_lower :: "jsstring \<Rightarrow> jsstring" where
  "ascii_lower s = map (\<lambda>c. if 65 \<le> c \<and> c \<le> 90 then c + 32 else c) s"



section \<open>Results, exceptions and the data the tools return\<close>

text \<open>
  A thrown value: an instance of \<^verbatim>\<open>Error\<close> with its message, or any other value.
  \<open>caught_message\<close> is the expression every \<^verbatim>\<open>catch\<close> block of the repository uses:
  \<^verbatim>\<open>error instanceof Error ? error.message : 'Unknown error'\<close>.
\<close>

datatype exn = Error jsstring | NonError

definition caught_message :: "exn \<Rightarrow> jsstring" where
  "caught_message e = (case e of Error msg \<Rightarrow> msg | NonError \<Rightarrow> js ''Unknown error'')"

text \<open>types.ts: CommandExecution (command, output, error, exitCode).\<close>

record CommandExecution =
  ce_command :: jsstring
  ce_output :: jsstring
  ce_error :: "jsstring option"
  exitCode :: int

text \<open>An entry of the array FileTools.listFiles returns.\<close>

record FileEntry =
  entry_name :: jsstring
  isDirectory :: bool
  entry_size :: nat
  modified :: nat

text \<open>types.ts: EmailMessage, EmailDraft (the fields the callers set), GmailConfig.\<close>

record EmailMessage =
  email_id :: jsstring
  threadId :: jsstring
  subject :: jsstring
  sender :: jsstring
  recipients :: "jsstring list"
  cc :: "jsstring list"
  bcc :: "jsstring list"
  body :: jsstring
  snippet :: jsstring
  date :: nat
  isRead :: bool
  hasAttachments :: bool

record EmailDraft =
  draft_to :: "jsstring list"
  draft_subject :: jsstring
  draft_body :: jsstring

record GmailConfig =
  credentialsPath :: jsstring
  tokenPath :: jsstring
  scopes :: "jsstring list"

text \<open>EmailSearchOptions, as listEmails reads it: an absent field is \<open>None\<close>.\<close>

record EmailSearchOptions =
  opt_query :: "jsstring option"
  opt_maxResults :: "jsnum option"

text \<open>The object analyzeEmailThread builds.\<close>

record ThreadAnalysis =
  analysed_thread :: jsstring
  messageCount :: nat
  participants :: "jsstring list"
  subjects :: "jsstring list"
  thread_hasAttachments :: bool

text \<open>The field \<^verbatim>\<open>data\<close> of a ToolResult: what each operation puts there.\<close>

datatype payload =
    FileContent jsstring
  | FileWritten jsstring nat
  | FileListing "FileEntry list"
  | Execution CommandExecution
  | Email EmailMessage
  | EmailList "EmailMessage list" "jsstring option" nat
  | EmailContext EmailMessage
  | Thread ThreadAnalysis
  | Response jsstring

text \<open>types.ts: ToolResult. The optional fields are options; \<open>message\<close> is required.\<close>

record ToolResult =
  success :: bool
  data :: "payload option"
  error :: "jsstring option"
  message :: jsstring

text \<open>types.ts: AgentMessage, AgentContext, AgentConfig.\<close>

datatype role = User | Assistant | System

record AgentMessage =
  role :: role
  content :: jsstring
  timestamp :: nat

text \<open>
  The three arrays of an AgentContext are objects: the record holds their references,
  the arrays themselves live in the heap, so that two Context objects can share them.
\<close>

record AgentContext =
  currentDirectory :: jsstring
  recentFiles :: nat
  recentCommands :: nat
  conversationHistory :: nat

text \<open>The temperature is a floating-point number; it is kept as its decimal text.\<close>

record AgentConfig =
  agent_name :: jsstring
  maxTokens :: jsnum
  temperature :: jsstring
  apiKey :: jsstring

record js_heap =
  stringArrays :: "nat \<Rightarrow> jsstring list"
  messageArrays :: "nat \<Rightarrow> AgentMessage list"
  nextRef :: nat

text \<open>\<^verbatim>\<open>[]\<close>: a new, empty array.\<close>

definition new_array :: "js_heap \<Rightarrow> nat \<times> js_heap" where
  "new_array h =
     (nextRef h, h\<lparr>stringArrays := (stringArrays h)(nextRef h := []),
                   messageArrays := (messageArrays h)(nextRef h := []),
                   nextRef := Suc (nextRef h)\<rparr>)"

text \<open>\<^verbatim>\<open>array.push(msg)\<close> on the array of messages at reference \<open>r\<close>.\<close>

definition push_message :: "nat \<Rightarrow> AgentMessage \<Rightarrow> js_heap \<Rightarrow> js_heap" where
  "push_message r msg h = h\<lparr>messageArrays := (messageArrays h)(r := messageArrays h r @ [msg])\<rparr>"

text \<open>\<^verbatim>\<open>array.push(s)\<close> on the array of strings at reference \<open>r\<close>.\<close>

definition push_string :: "nat \<Rightarrow> jsstring \<Rightarrow> js_heap \<Rightarrow> js_heap" where
  "push_string r s h = h\<lparr>stringArrays := (stringArrays h)(r := stringArrays h r @ [s])\<rparr>"

section \<open>The world outside the agent\<close>

text \<open>
  What the child process does, as the promise of executeCommand sees it: the event
  \<^verbatim>\<open>close\<close> with the captured output and the exit code (\<^verbatim>\<open>null\<close> after a signal),
  the event \<^verbatim>\<open>error\<close> with the message of its Error, or \<^verbatim>\<open>exec\<close> itself throwing
  inside the executor, which rejects the promise.
\<close>

datatype exec_outcome =
    Close jsstring jsstring "int option"
  | ErrorEvent jsstring
  | Throws exn

record list_response =
  message_ids :: "jsstring list"
  nextPageToken :: "jsstring option"
  resultSizeEstimate :: "nat option"

text \<open>
  The file system, the shell, the model and the mail service are parameters: functions
  of a world \<open>'w\<close> that return what the call returns or the value it throws, and the
  world after the call where the call can change it. The functions of \<^verbatim>\<open>path\<close> and
  \<open>toLowerCase\<close> are pure. For the mail service a function stands for the request
  together with the construction of the payload from the response, inside the \<^verbatim>\<open>try\<close>
  block of the method.
\<close>

record 'w externals =
  toLowerCase :: "jsstring \<Rightarrow> jsstring"
  process_cwd :: jsstring
  path_resolve :: "jsstring \<Rightarrow> jsstring \<Rightarrow> jsstring"
  path_dirname :: "jsstring \<Rightarrow> jsstring"
  path_join :: "jsstring \<Rightarrow> jsstring \<Rightarrow> jsstring"
  fs_existsSync :: "'w \<Rightarrow> jsstring \<Rightarrow> bool"
  fs_readFileSync :: "'w \<Rightarrow> jsstring \<Rightarrow> exn + jsstring"
  fs_writeFileSync :: "'w \<Rightarrow> jsstring \<Rightarrow> jsstring option \<Rightarrow> exn option \<times> 'w"
  fs_mkdirSync :: "'w \<Rightarrow> jsstring \<Rightarrow> exn option \<times> 'w"
  fs_readdirSync :: "'w \<Rightarrow> jsstring \<Rightarrow> exn + jsstring list"
  fs_statSync :: "'w \<Rightarrow> jsstring \<Rightarrow> exn + (bool \<times> nat \<times> nat)"
  child_exec :: "'w \<Rightarrow> jsstring \<Rightarrow> jsstring \<Rightarrow> exec_outcome \<times> 'w"
  now :: "'w \<Rightarrow> nat \<times> 'w"
  openai_create :: "'w \<Rightarrow> AgentConfig \<Rightarrow> (role \<times> jsstring) list \<Rightarrow> (exn + jsstring option) \<times> 'w"
  google_authenticate :: "'w \<Rightarrow> GmailConfig \<Rightarrow> exn option \<times> 'w"
  gmail_list :: "'w \<Rightarrow> jsstring \<Rightarrow> jsnum \<Rightarrow> (exn + list_response) \<times> 'w"
  gmail_get :: "'w \<Rightarrow> jsstring \<Rightarrow> (exn + EmailMessage) \<times> 'w"
  gmail_send :: "'w \<Rightarrow> EmailDraft \<Rightarrow> (exn + jsstring) \<times> 'w"
  gmail_drafts_create :: "'w \<Rightarrow> EmailDraft \<Rightarrow> (exn + jsstring) \<times> 'w"
  gmail_modify :: "'w \<Rightarrow> jsstring \<Rightarrow> exn option \<times> 'w"
  gmail_delete :: "'w \<Rightarrow> jsstring \<Rightarrow> exn option \<times> 'w"
  gmail_threads_get :: "'w \<Rightarrow> jsstring \<Rightarrow> (exn + ThreadAnalysis) \<times> 'w"

text \<open>
  The calls of the capabilities, recorded in a ghost trace: every public method of
  FileTools, CommandTools and GmailTools and every request to the model appends its
  call when it is entered. The trace is not in the source; it makes "was not invoked"
  a statement about the state.
\<close>

datatype capability_call =
    FileRead jsstring
  | FileWrite jsstring "jsstring option"
  | FileEdit jsstring "jsstring option"
  | FileList jsstring
  | ProcessExec jsstring
  | MailList EmailSearchOptions
  | MailGet jsstring
  | MailSend EmailDraft
  | MailDraft EmailDraft
  | MailSearch jsstring jsnum
  | MailUnread jsnum
  | MailMarkRead jsstring
  | MailDelete jsstring
  | MailContext jsstring
  | MailThread jsstring
  | ModelRequest "(role \<times> jsstring) list"

definition is_mailbox_call :: "capability_call \<Rightarrow> bool" where
  "is_mailbox_call c =
     (case c of
        MailList _ \<Rightarrow> True | MailGet _ \<Rightarrow> True | MailSend _ \<Rightarrow> True | MailDraft _ \<Rightarrow> True
      | MailSearch _ _ \<Rightarrow> True | MailUnread _ \<Rightarrow> True | MailMarkRead _ \<Rightarrow> True
      | MailDelete _ \<Rightarrow> True | MailContext _ \<Rightarrow> True | MailThread _ \<Rightarrow> True
      | _ \<Rightarrow> False)"

text \<open>The GmailTools object: its configuration and its two mutable fields.\<close>

record GmailTools =
  gmail_config :: GmailConfig
  isAuthenticated :: bool
  gmail_client :: bool

text \<open>
  The state: the fields of the CodingAgent (with the current directory of its FileTools
  and of its CommandTools), the heap of arrays, the world, and the ghost trace.
\<close>

record 'w machine =
  agent_config :: AgentConfig
  agent_context :: AgentContext
  fileTools_currentDirectory :: jsstring
  commandTools_currentDirectory :: jsstring
  gmailTools :: "GmailTools option"
  heap :: js_heap
  world :: 'w
  trace :: "capability_call list"

definition invoke :: "capability_call \<Rightarrow> 'w machine \<Rightarrow> 'w machine" where
  "invoke c m = m\<lparr>trace := trace m @ [c]\<rparr>"

section \<open>The File capability: tools/fileTools.ts\<close>

definition FileTools_readFile ::
    "'w externals \<Rightarrow> jsstring \<Rightarrow> 'w machine \<Rightarrow> ToolResult \<times> 'w machine" where
  "FileTools_readFile X filePath m0 =
     (let m = invoke (FileRead filePath) m0;
          fullPath = path_resolve X (fileTools_currentDirectory m) filePath
      in if \<not> fs_existsSync X (world m) fullPath then
           (\<lparr>success = False, data = None,
             error = Some (js ''File not found: '' @ filePath),
             message = js ''File '' @ filePath @ js '' does not exist''\<rparr>, m)
         else (case fs_readFileSync X (world m) fullPath of
                 Inl e \<Rightarrow>
                   (\<lparr>success = False, data = None, error = Some (caught_message e),
                     message = js ''Failed to read file: '' @ filePath\<rparr>, m)
               | Inr text_read \<Rightarrow>
                   (\<lparr>success = True, data = Some (FileContent text_read), error = None,
                     message = js ''Successfully read file: '' @ filePath\<rparr>, m)))"

text \<open>
  The message of the TypeError that reading \<^verbatim>\<open>content.length\<close> throws when the content
  is \<^verbatim>\<open>undefined\<close> (the dispatcher passes \<^verbatim>\<open>args[1]\<close>, which may be missing).
\<close>

definition length_of_undefined :: jsstring where
  "length_of_undefined = js ''Cannot read properties of undefined (reading '' @ [39] @ js ''length'' @ [39] @ js '')''"

definition FileTools_writeFile ::
    "'w externals \<Rightarrow> jsstring \<Rightarrow> jsstring option \<Rightarrow> 'w machine \<Rightarrow> ToolResult \<times> 'w machine" where
  "FileTools_writeFile X filePath content_opt m0 =
     (let m = invoke (FileWrite filePath content_opt) m0;
          fullPath = path_resolve X (fileTools_currentDirectory m) filePath;
          dir = path_dirname X fullPath;
          failed = (\<lambda>e. \<lparr>success = False, data = None, error = Some (caught_message e),
                          message = js ''Failed to write file: '' @ filePath\<rparr>);
          (made, w1) = (if \<not> fs_existsSync X (world m) dir then fs_mkdirSync X (world m) dir
                        else (None, world m))
      in case made of
           Some e \<Rightarrow> (failed e, m\<lparr>world := w1\<rparr>)
         | None \<Rightarrow>
             (let (written, w2) = fs_writeFileSync X w1 fullPath content_opt
              in case written of
                   Some e \<Rightarrow> (failed e, m\<lparr>world := w2\<rparr>)
                 | None \<Rightarrow>
                     (case content_opt of
                        None \<Rightarrow> (failed (Error length_of_undefined), m\<lparr>world := w2\<rparr>)
                      | Some c \<Rightarrow>
                          (\<lparr>success = True, data = Some (FileWritten filePath (length c)),
                            error = None,
                            message = js ''Successfully wrote file: '' @ filePath\<rparr>,
                           m\<lparr>world := w2\<rparr>))))"

definition FileTools_editFile ::
    "'w externals \<Rightarrow> jsstring \<Rightarrow> jsstring option \<Rightarrow> 'w machine \<Rightarrow> ToolResult \<times> 'w machine" where
  "FileTools_editFile X filePath newContent m0 =
     (let m = invoke (FileEdit filePath newContent) m0;
          fullPath = path_resolve X (fileTools_currentDirectory m) filePath;
          failed = (\<lambda>e. \<lparr>success = False, data = None, error = Some (caught_message e),
                          message = js ''Failed to edit file: '' @ filePath\<rparr>)
      in if \<not> fs_existsSync X (world m) fullPath then
           (\<lparr>success = False, data = None,
             error = Some (js ''File not found: '' @ filePath),
             message = js ''Cannot edit non-existent file: '' @ filePath\<rparr>, m)
         else (let (written, w2) = fs_writeFileSync X (world m) fullPath newContent
               in case written of
                    Some e \<Rightarrow> (failed e, m\<lparr>world := w2\<rparr>)
                  | None \<Rightarrow>
                      (case newContent of
                         None \<Rightarrow> (failed (Error length_of_undefined), m\<lparr>world := w2\<rparr>)
                       | Some c \<Rightarrow>
                           (\<lparr>success = True, data = Some (FileWritten filePath (length c)),
                             error = None,
                             message = js ''Successfully edited file: '' @ filePath\<rparr>,
                            m\<lparr>world := w2\<rparr>))))"

text \<open>\<^verbatim>\<open>items.map(item => ...statSync...)\<close>: the first exception ends the map.\<close>

fun stat_items :: "'w externals \<Rightarrow> 'w \<Rightarrow> jsstring \<Rightarrow> jsstring list \<Rightarrow> exn + FileEntry list" where
  "stat_items X w fullPath [] = Inr []"
| "stat_items X w fullPath (item # items) =
     (case fs_statSync X w (path_join X fullPath item) of
        Inl e \<Rightarrow> Inl e
      | Inr (isDir, sz, mtime) \<Rightarrow>
          (case stat_items X w fullPath items of
             Inl e \<Rightarrow> Inl e
           | Inr files \<Rightarrow>
               Inr (\<lparr>entry_name = item, isDirectory = isDir, entry_size = sz,
                      modified = mtime\<rparr> # files)))"

definition FileTools_listFiles ::
    "'w externals \<Rightarrow> jsstring \<Rightarrow> 'w machine \<Rightarrow> ToolResult \<times> 'w machine" where
  "FileTools_listFiles X directory m0 =
     (let m = invoke (FileList directory) m0;
          fullPath = path_resolve X (fileTools_currentDirectory m) directory;
          failed = (\<lambda>e. \<lparr>success = False, data = None, error = Some (caught_message e),
                          message = js ''Failed to list files in: '' @ directory\<rparr>)
      in if \<not> fs_existsSync X (world m) fullPath then
           (\<lparr>success = False, data = None,
             error = Some (js ''Directory not found: '' @ directory),
             message = js ''Directory '' @ directory @ js '' does not exist''\<rparr>, m)
         else (case fs_readdirSync X (world m) fullPath of
                 Inl e \<Rightarrow> (failed e, m)
               | Inr items \<Rightarrow>
                   (case stat_items X (world m) fullPath items of
                      Inl e \<Rightarrow> (failed e, m)
                    | Inr files \<Rightarrow>
                        (\<lparr>success = True, data = Some (FileListing files), error = None,
                          message = js ''Successfully listed files in: '' @ directory\<rparr>, m))))"

section \<open>The Process capability: tools/commandTools.ts\<close>

text \<open>
  executeCommand: \<open>Inl\<close> is the rejected promise (\<^verbatim>\<open>exec\<close> threw), \<open>Inr\<close> the ToolResult
  the promise resolves with.
\<close>

definition CommandTools_executeCommand ::
    "'w externals \<Rightarrow> jsstring \<Rightarrow> 'w machine \<Rightarrow> (exn + ToolResult) \<times> 'w machine" where
  "CommandTools_executeCommand X cmd m0 =
     (let m = invoke (ProcessExec cmd) m0;
          (outcome, w) = child_exec X (world m) (commandTools_currentDirectory m) cmd;
          m' = m\<lparr>world := w\<rparr>
      in case outcome of
           Throws e \<Rightarrow> (Inl e, m')
         | ErrorEvent msg \<Rightarrow>
             (Inr \<lparr>success = False, data = None, error = Some msg,
                   message = js ''Failed to execute command: '' @ cmd\<rparr>, m')
         | Close stdout stderr code \<Rightarrow>
             (let result = \<lparr>ce_command = cmd, ce_output = stdout,
                             ce_error = (if stderr = [] then None else Some stderr),
                             exitCode = (case code of None \<Rightarrow> 0 | Some c \<Rightarrow> c)\<rparr>
              in if code = Some 0 then
                   (Inr \<lparr>success = True, data = Some (Execution result), error = None,
                         message = js ''Command executed successfully: '' @ cmd\<rparr>, m')
                 else
                   (Inr \<lparr>success = False, data = Some (Execution result),
                         error = Some (if stderr = [] then js ''Command failed'' else stderr),
                         message = js ''Command failed with exit code ''
                           @ (case code of None \<Rightarrow> js ''null'' | Some c \<Rightarrow> str_int c)
                           @ js '': '' @ cmd\<rparr>, m')))"

section \<open>The Mailbox capability: tools/gmailTools.ts\<close>

text \<open>
  A method of GmailTools takes the object and the state and returns its ToolResult, the
  object and the state after the call. No method lets an exception escape: each body is
  inside \<^verbatim>\<open>try\<close>, and searchEmails and getUnreadEmails only call listEmails.
\<close>

definition GmailTools_authenticate ::
    "'w externals \<Rightarrow> GmailTools \<Rightarrow> 'w machine \<Rightarrow> ToolResult \<times> GmailTools \<times> 'w machine" where
  "GmailTools_authenticate X g m =
     (if isAuthenticated g \<and> gmail_client g then
        (\<lparr>success = True, data = None, error = None,
          message = js ''Already authenticated''\<rparr>, g, m)
      else (let (thrown, w) = google_authenticate X (world m) (gmail_config g)
            in case thrown of
                 Some e \<Rightarrow>
                   (\<lparr>success = False, data = None,
                     error = Some (case e of Error msg \<Rightarrow> msg
                                   | NonError \<Rightarrow> js ''Authentication failed''),
                     message = js ''Failed to authenticate with Gmail API''\<rparr>,
                    g, m\<lparr>world := w\<rparr>)
               | None \<Rightarrow>
                   (\<lparr>success = True, data = None, error = None,
                     message = js ''Successfully authenticated with Gmail API''\<rparr>,
                    g\<lparr>isAuthenticated := True, gmail_client := True\<rparr>, m\<lparr>world := w\<rparr>)))"

definition GmailTools_ensureAuthenticated ::
    "'w externals \<Rightarrow> GmailTools \<Rightarrow> 'w machine \<Rightarrow> ToolResult \<times> GmailTools \<times> 'w machine" where
  "GmailTools_ensureAuthenticated X g m =
     (if \<not> isAuthenticated g then GmailTools_authenticate X g m
      else (\<lparr>success = True, data = None, error = None, message = js ''Authenticated''\<rparr>, g, m))"

definition GmailTools_getEmail ::
    "'w externals \<Rightarrow> jsstring \<Rightarrow> GmailTools \<Rightarrow> 'w machine
      \<Rightarrow> ToolResult \<times> GmailTools \<times> 'w machine" where
  "GmailTools_getEmail X messageId g m0 =
     (let m = invoke (MailGet messageId) m0;
          (authResult, g1, m1) = GmailTools_ensureAuthenticated X g m
      in if \<not> success authResult then (authResult, g1, m1)
         else (let (response, w) = gmail_get X (world m1) messageId
               in case response of
                    Inl e \<Rightarrow>
                      (\<lparr>success = False, data = None, error = Some (caught_message e),
                        message = js ''Failed to get email: '' @ messageId\<rparr>,
                       g1, m1\<lparr>world := w\<rparr>)
                  | Inr emailMessage \<Rightarrow>
                      (\<lparr>success = True, data = Some (Email emailMessage), error = None,
                        message = js ''Successfully retrieved email: '' @ subject emailMessage\<rparr>,
                       g1, m1\<lparr>world := w\<rparr>)))"

text \<open>The loop of listEmails over the listed messages: one getEmail each, in order.\<close>

fun collect_emails ::
    "'w externals \<Rightarrow> jsstring list \<Rightarrow> GmailTools \<Rightarrow> 'w machine
      \<Rightarrow> EmailMessage list \<times> GmailTools \<times> 'w machine" where
  "collect_emails X [] g m = ([], g, m)"
| "collect_emails X (i # ids) g m =
     (let (emailResult, g1, m1) = GmailTools_getEmail X i g m;
          (emails, g2, m2) = collect_emails X ids g1 m1
      in ((if success emailResult
           then (case data emailResult of Some (Email e) \<Rightarrow> [e] | _ \<Rightarrow> [])
           else []) @ emails, g2, m2))"

definition GmailTools_listEmails ::
    "'w externals \<Rightarrow> EmailSearchOptions \<Rightarrow> GmailTools \<Rightarrow> 'w machine
      \<Rightarrow> ToolResult \<times> GmailTools \<times> 'w machine" where
  "GmailTools_listEmails X options g m0 =
     (let m = invoke (MailList options) m0;
          (authResult, g1, m1) = GmailTools_ensureAuthenticated X g m
      in if \<not> success authResult then (authResult, g1, m1)
         else (let query = (case opt_query options of None \<Rightarrow> [] | Some q \<Rightarrow> q);
                   maxResults = (case opt_maxResults options of
                                   None \<Rightarrow> Num 10
                                 | Some n \<Rightarrow> if truthy_num n then n else Num 10);
                   (response, w) = gmail_list X (world m1) query maxResults
               in case response of
                    Inl e \<Rightarrow>
                      (\<lparr>success = False, data = None, error = Some (caught_message e),
                        message = js ''Failed to list emails''\<rparr>, g1, m1\<lparr>world := w\<rparr>)
                  | Inr r \<Rightarrow>
                      (let (emailMessages, g2, m2) =
                             collect_emails X (message_ids r) g1 (m1\<lparr>world := w\<rparr>)
                       in (\<lparr>success = True,
                            data = Some (EmailList emailMessages (nextPageToken r)
                                     (case resultSizeEstimate r of None \<Rightarrow> 0 | Some n \<Rightarrow> n)),
                            error = None,
                            message = js ''Successfully retrieved ''
                              @ str_nat (length emailMessages) @ js '' emails''\<rparr>,
                           g2, m2))))"

definition GmailTools_sendEmail ::
    "'w externals \<Rightarrow> EmailDraft \<Rightarrow> GmailTools \<Rightarrow> 'w machine
      \<Rightarrow> ToolResult \<times> GmailTools \<times> 'w machine" where
  "GmailTools_sendEmail X draft g m0 =
     (let m = invoke (MailSend draft) m0;
          (authResult, g1, m1) = GmailTools_ensureAuthenticated X g m
      in if \<not> success authResult then (authResult, g1, m1)
         else (let (response, w) = gmail_send X (world m1) draft
               in case response of
                    Inl e \<Rightarrow>
                      (\<lparr>success = False, data = None, error = Some (caught_message e),
                        message = js ''Failed to send email''\<rparr>, g1, m1\<lparr>world := w\<rparr>)
                  | Inr d \<Rightarrow>
                      (\<lparr>success = True, data = Some (Response d), error = None,
                        message = js ''Successfully sent email: '' @ draft_subject draft\<rparr>,
                       g1, m1\<lparr>world := w\<rparr>)))"

definition GmailTools_createDraft ::
    "'w externals \<Rightarrow> EmailDraft \<Rightarrow> GmailTools \<Rightarrow> 'w machine
      \<Rightarrow> ToolResult \<times> GmailTools \<times> 'w machine" where
  "GmailTools_createDraft X draft g m0 =
     (let m = invoke (MailDraft draft) m0;
          (authResult, g1, m1) = GmailTools_ensureAuthenticated X g m
      in if \<not> success authResult then (authResult, g1, m1)
         else (let (response, w) = gmail_drafts_create X (world m1) draft
               in case response of
                    Inl e \<Rightarrow>
                      (\<lparr>success = False, data = None, error = Some (caught_message e),
                        message = js ''Failed to create draft''\<rparr>, g1, m1\<lparr>world := w\<rparr>)
                  | Inr d \<Rightarrow>
                      (\<lparr>success = True, data = Some (Response d), error = None,
                        message = js ''Successfully created draft: '' @ draft_subject draft\<rparr>,
                       g1, m1\<lparr>world := w\<rparr>)))"

definition GmailTools_searchEmails ::
    "'w externals \<Rightarrow> jsstring \<Rightarrow> jsnum \<Rightarrow> GmailTools \<Rightarrow> 'w machine
      \<Rightarrow> ToolResult \<times> GmailTools \<times> 'w machine" where
  "GmailTools_searchEmails X query maxResults g m0 =
     GmailTools_listEmails X \<lparr>opt_query = Some query, opt_maxResults = Some maxResults\<rparr> g
       (invoke (MailSearch query maxResults) m0)"

definition GmailTools_getUnreadEmails ::
    "'w externals \<Rightarrow> jsnum \<Rightarrow> GmailTools \<Rightarrow> 'w machine
      \<Rightarrow> ToolResult \<times> GmailTools \<times> 'w machine" where
  "GmailTools_getUnreadEmails X maxResults g m0 =
     GmailTools_listEmails X
       \<lparr>opt_query = Some (js ''is:unread''), opt_maxResults = Some maxResults\<rparr> g
       (invoke (MailUnread maxResults) m0)"

definition GmailTools_markAsRead ::
    "'w externals \<Rightarrow> jsstring \<Rightarrow> GmailTools \<Rightarrow> 'w machine
      \<Rightarrow> ToolResult \<times> GmailTools \<times> 'w machine" where
  "GmailTools_markAsRead X messageId g m0 =
     (let m = invoke (MailMarkRead messageId) m0;
          (authResult, g1, m1) = GmailTools_ensureAuthenticated X g m
      in if \<not> success authResult then (authResult, g1, m1)
         else (let (thrown, w) = gmail_modify X (world m1) messageId
               in case thrown of
                    Some e \<Rightarrow>
                      (\<lparr>success = False, data = None, error = Some (caught_message e),
                        message = js ''Failed to mark email as read: '' @ messageId\<rparr>,
                       g1, m1\<lparr>world := w\<rparr>)
                  | None \<Rightarrow>
                      (\<lparr>success = True, data = None, error = None,
                        message = js ''Successfully marked email as read: '' @ messageId\<rparr>,
                       g1, m1\<lparr>world := w\<rparr>)))"

definition GmailTools_deleteEmail ::
    "'w externals \<Rightarrow> jsstring \<Rightarrow> GmailTools \<Rightarrow> 'w machine
      \<Rightarrow> ToolResult \<times> GmailTools \<times> 'w machine" where
  "GmailTools_deleteEmail X messageId g m0 =
     (let m = invoke (MailDelete messageId) m0;
          (authResult, g1, m1) = GmailTools_ensureAuthenticated X g m
      in if \<not> success authResult then (authResult, g1, m1)
         else (let (thrown, w) = gmail_delete X (world m1) messageId
               in case thrown of
                    Some e \<Rightarrow>
                      (\<lparr>success = False, data = None, error = Some (caught_message e),
                        message = js ''Failed to delete email: '' @ messageId\<rparr>,
                       g1, m1\<lparr>world := w\<rparr>)
                  | None \<Rightarrow>
                      (\<lparr>success = True, data = None, error = None,
                        message = js ''Successfully deleted email: '' @ messageId\<rparr>,
                       g1, m1\<lparr>world := w\<rparr>)))"

text \<open>
  getEmailContext reads \<^verbatim>\<open>email.subject\<close> of the data of a successful getEmail; were
  the data missing, that read would throw a TypeError inside the \<^verbatim>\<open>try\<close> block.
\<close>

definition subject_of_undefined :: jsstring where
  "subject_of_undefined = js ''Cannot read properties of undefined (reading '' @ [39] @ js ''subject'' @ [39] @ js '')''"

definition GmailTools_getEmailContext ::
    "'w externals \<Rightarrow> jsstring \<Rightarrow> GmailTools \<Rightarrow> 'w machine
      \<Rightarrow> ToolResult \<times> GmailTools \<times> 'w machine" where
  "GmailTools_getEmailContext X messageId g m0 =
     (let m = invoke (MailContext messageId) m0;
          (emailResult, g1, m1) = GmailTools_getEmail X messageId g m
      in if \<not> success emailResult then (emailResult, g1, m1)
         else (case data emailResult of
                 Some (Email email) \<Rightarrow>
                   (\<lparr>success = True, data = Some (EmailContext email), error = None,
                     message = js ''Email context retrieved for: '' @ subject email\<rparr>, g1, m1)
               | _ \<Rightarrow>
                   (\<lparr>success = False, data = None, error = Some subject_of_undefined,
                     message = js ''Failed to get email context''\<rparr>, g1, m1)))"

definition GmailTools_analyzeEmailThread ::
    "'w externals \<Rightarrow> jsstring \<Rightarrow> GmailTools \<Rightarrow> 'w machine
      \<Rightarrow> ToolResult \<times> GmailTools \<times> 'w machine" where
  "GmailTools_analyzeEmailThread X thread g m0 =
     (let m = invoke (MailThread thread) m0;
          (authResult, g1, m1) = GmailTools_ensureAuthenticated X g m
      in if \<not> success authResult then (authResult, g1, m1)
         else (let (response, w) = gmail_threads_get X (world m1) thread
               in case response of
                    Inl e \<Rightarrow>
                      (\<lparr>success = False, data = None, error = Some (caught_message e),
                        message = js ''Failed to analyze email thread''\<rparr>,
                       g1, m1\<lparr>world := w\<rparr>)
                  | Inr analysis \<Rightarrow>
                      (\<lparr>success = True, data = Some (Thread analysis), error = None,
                        message = js ''Thread analysis completed for thread: '' @ thread\<rparr>,
                       g1, m1\<lparr>world := w\<rparr>)))"

section \<open>The Dispatcher: the loop body of parseAndExecuteTools (agent.ts)\<close>

text \<open>The result of every mailbox case when \<^verbatim>\<open>this.gmailTools\<close> is not set.\<close>

definition gmail_not_available :: ToolResult where
  "gmail_not_available =
     \<lparr>success = False, data = None, error = Some (js ''Gmail tools not available''),
      message = js ''Gmail functionality not configured''\<rparr>"

text \<open>
  A mailbox case of the switch: the method is called on \<^verbatim>\<open>this.gmailTools\<close> when it is
  set, and the object is stored back with the fields the method changed.
\<close>

definition with_gmail ::
    "(GmailTools \<Rightarrow> 'w machine \<Rightarrow> ToolResult \<times> GmailTools \<times> 'w machine)
      \<Rightarrow> 'w machine \<Rightarrow> ToolResult \<times> 'w machine" where
  "with_gmail method m =
     (case gmailTools m of
        None \<Rightarrow> (gmail_not_available, m)
      | Some g \<Rightarrow> (let (result, g', m') = method g m in (result, m'\<lparr>gmailTools := Some g'\<rparr>)))"

text \<open>
  The \<^verbatim>\<open>switch (funcName)\<close>. \<open>arg0\<close> is \<^verbatim>\<open>args[0]\<close>, which split always yields, and
  \<open>rest\<close> holds \<^verbatim>\<open>args[1]\<close>, ... ; a missing \<^verbatim>\<open>args[1]\<close> is \<^verbatim>\<open>undefined\<close>, here \<open>None\<close>.
  The result is \<open>Inl\<close> when the case throws (only executeCommand can), \<open>Inr\<close> the
  ToolResult otherwise.
\<close>

definition arg1 :: "jsstring list \<Rightarrow> jsstring option" where
  "arg1 rest = (case rest of [] \<Rightarrow> None | a # _ \<Rightarrow> Some a)"

definition dispatch ::
    "'w externals \<Rightarrow> jsstring \<Rightarrow> jsstring \<Rightarrow> jsstring list \<Rightarrow> 'w machine
      \<Rightarrow> (exn + ToolResult) \<times> 'w machine" where
  "dispatch X funcName arg0 rest m =
     (let returned = (\<lambda>(result, m'). (Inr result, m')) in
      if funcName = js ''readFile'' then returned (FileTools_readFile X arg0 m)
      else if funcName = js ''writeFile'' then returned (FileTools_writeFile X arg0 (arg1 rest) m)
      else if funcName = js ''editFile'' then returned (FileTools_editFile X arg0 (arg1 rest) m)
      else if funcName = js ''executeCommand'' then
        (if isSafeCommand (toLowerCase X) arg0 then CommandTools_executeCommand X arg0 m
         else (Inr \<lparr>success = False, data = None,
                    error = Some (js ''Command blocked for safety''),
                    message = js ''Command blocked: '' @ arg0\<rparr>, m))
      else if funcName = js ''listFiles'' then
        returned (FileTools_listFiles X (if arg0 = [] then js ''.'' else arg0) m)
      else if funcName = js ''listEmails'' then
        returned (with_gmail
          (GmailTools_listEmails X \<lparr>opt_query = None, opt_maxResults = None\<rparr>) m)
      else if funcName = js ''getEmail'' then
        returned (with_gmail (GmailTools_getEmail X arg0) m)
      else if funcName = js ''searchEmails'' then
        returned (with_gmail
          (GmailTools_searchEmails X arg0
             (let n = js_parseInt (arg1 rest) in if truthy_num n then n else Num 10)) m)
      else if funcName = js ''getUnreadEmails'' then
        returned (with_gmail
          (GmailTools_getUnreadEmails X
             (let n = js_parseInt (Some arg0) in if truthy_num n then n else Num 10)) m)
      else if funcName = js ''markAsRead'' then
        returned (with_gmail (GmailTools_markAsRead X arg0) m)
      else if funcName = js ''deleteEmail'' then
        returned (with_gmail (GmailTools_deleteEmail X arg0) m)
      else if funcName = js ''getEmailContext'' then
        returned (with_gmail (GmailTools_getEmailContext X arg0) m)
      else if funcName = js ''analyzeEmailThread'' then
        returned (with_gmail (GmailTools_analyzeEmailThread X arg0) m)
      else (Inr \<lparr>success = False, data = None, error = Some (js ''Unknown tool''),
                 message = js ''Unknown tool: '' @ funcName\<rparr>, m))"

text \<open>
  One round of the loop over the matches: the second pattern, the arguments, the switch
  inside \<^verbatim>\<open>try\<close>, and the \<^verbatim>\<open>catch\<close> that turns a thrown value into a ToolResult. The
  results pushed in this round are returned. js_split never returns the empty list
  (lemma \<open>parse_args_not_empty\<close>), so its case below is never taken.
\<close>

definition run_toolCall ::
    "'w externals \<Rightarrow> jsstring \<Rightarrow> 'w machine \<Rightarrow> ToolResult list \<times> 'w machine" where
  "run_toolCall X toolCall m =
     (case match_call toolCall of
        None \<Rightarrow> ([], m)
      | Some (funcName, argsStr) \<Rightarrow>
          (case parse_args argsStr of
             [] \<Rightarrow> ([], m)
           | arg0 # rest \<Rightarrow>
               (case dispatch X funcName arg0 rest m of
                  (Inr result, m') \<Rightarrow> ([result], m')
                | (Inl e, m') \<Rightarrow>
                    ([\<lparr>success = False, data = None, error = Some (caught_message e),
                       message = js ''Failed to execute tool: '' @ toolCall\<rparr>], m'))))"

fun run_toolCalls ::
    "'w externals \<Rightarrow> jsstring list \<Rightarrow> 'w machine \<Rightarrow> ToolResult list \<times> 'w machine" where
  "run_toolCalls X [] m = ([], m)"
| "run_toolCalls X (toolCall # calls) m =
     (let (results, m1) = run_toolCall X toolCall m;
          (later, m2) = run_toolCalls X calls m1
      in (results @ later, m2))"

definition parseAndExecuteTools ::
    "'w externals \<Rightarrow> jsstring \<Rightarrow> 'w machine \<Rightarrow> ToolResult list \<times> 'w machine" where
  "parseAndExecuteTools X response m = run_toolCalls X (toolCalls response) m"

section \<open>The agent: class CodingAgent (agent.ts)\<close>

text \<open>
  The constructor: three new arrays for the context, the current directory of the
  process everywhere, and a GmailTools object when a configuration is given.
\<close>

definition CodingAgent_new ::
    "'w externals \<Rightarrow> AgentConfig \<Rightarrow> GmailConfig option \<Rightarrow> js_heap \<Rightarrow> 'w \<Rightarrow> 'w machine" where
  "CodingAgent_new X config gmailConfig h0 w =
     (let (files, h1) = new_array h0;
          (commands, h2) = new_array h1;
          (history, h3) = new_array h2
      in \<lparr>agent_config = config,
          agent_context = \<lparr>currentDirectory = process_cwd X, recentFiles = files,
                            recentCommands = commands, conversationHistory = history\<rparr>,
          fileTools_currentDirectory = process_cwd X,
          commandTools_currentDirectory = process_cwd X,
          gmailTools = (case gmailConfig of
                          None \<Rightarrow> None
                        | Some c \<Rightarrow> Some \<lparr>gmail_config = c, isAuthenticated = False,
                                           gmail_client = False\<rparr>),
          heap = h3, world = w, trace = []\<rparr>)"

text \<open>The text of the system prompt (a template literal; \<open>10\<close> is the line feed).\<close>

definition js_lines :: "jsstring list \<Rightarrow> jsstring" where
  "js_lines ls = js_join [10] ls"

definition gmailCapabilities_text :: jsstring where
  "gmailCapabilities_text = js_lines
     [[],
      js ''Email capabilities (Gmail API):'',
      js ''- listEmails(): List recent emails'',
      js ''- getEmail(messageId): Get specific email details'',
      js ''- sendEmail(draft): Send an email'',
      js ''- createDraft(draft): Create email draft'',
      js ''- searchEmails(query): Search emails'',
      js ''- getUnreadEmails(): Get unread emails'',
      js ''- markAsRead(messageId): Mark email as read'',
      js ''- deleteEmail(messageId): Delete email'',
      js ''- getEmailContext(messageId): Get email context for MCP'',
      js ''- analyzeEmailThread(threadId): Analyze email thread'',
      []]"

definition generateSystemPrompt :: "'w externals \<Rightarrow> 'w machine \<Rightarrow> jsstring \<times> 'w machine" where
  "generateSystemPrompt X m =
     (let currentDir = fileTools_currentDirectory m;
          (files, m1) = FileTools_listFiles X (js ''.'') m;
          fileList = (if success files then
                        (case data files of
                           Some (FileListing entries) \<Rightarrow>
                             js_lines (map (\<lambda>file. (if isDirectory file then js ''[DIR]''
                                                      else js ''[FILE]'') @ [32] @ entry_name file)
                                           (take 10 entries))
                         | _ \<Rightarrow> [])
                      else []);
          gmailCapabilities = (if gmailTools m1 \<noteq> None then gmailCapabilities_text else [])
      in (js_lines
           [js ''You are '' @ agent_name (agent_config m1)
              @ js '', a helpful coding assistant with MCP (Model Context Protocol) capabilities. You can:'',
            [],
            js ''1. Read, write, and edit files'',
            js ''2. Execute bash commands'',
            js ''3. Help with coding tasks and debugging'',
            (if gmailTools m1 \<noteq> None then js ''4. Read and write emails via Gmail API'' else []),
            [],
            js ''Current directory: '' @ currentDir,
            js ''Recent files:'',
            fileList,
            [],
            js ''Available tools:'',
            js ''- readFile(filePath): Read the contents of a file'',
            js ''- writeFile(filePath, content): Write content to a file'',
            js ''- editFile(filePath, newContent): Edit an existing file'',
            js ''- executeCommand(command): Execute a bash command'',
            js ''- listFiles(directory): List files in a directory'' @ gmailCapabilities,
            [],
            js ''MCP Context: You can understand and reason about email content, threads, and relationships. When working with emails, consider:'',
            js ''- Email context and threading'',
            js ''- Sender/recipient relationships'',
            js ''- Content analysis and summarization'',
            js ''- Action items and follow-ups'',
            js ''- Attachment handling'',
            [],
            js ''Always be helpful, explain your actions, and ensure commands are safe before executing them.''],
          m1))"

text \<open>
  callOpenAI: the request to the model; a missing or empty content gives the fixed
  text, and any exception the fixed apology.
\<close>

definition callOpenAI ::
    "'w externals \<Rightarrow> (role \<times> jsstring) list \<Rightarrow> 'w machine \<Rightarrow> jsstring \<times> 'w machine" where
  "callOpenAI X messages m0 =
     (let m = invoke (ModelRequest messages) m0;
          (response, w) = openai_create X (world m) (agent_config m) messages
      in (case response of
            Inl e \<Rightarrow> js ''Sorry, I encountered an error while processing your request.''
          | Inr None \<Rightarrow> js ''No response from AI''
          | Inr (Some c) \<Rightarrow> if c = [] then js ''No response from AI'' else c,
          m\<lparr>world := w\<rparr>))"

text \<open>The lines processMessage adds to the response for the result at \<open>index\<close>.\<close>

definition format_result :: "nat \<Rightarrow> ToolResult \<Rightarrow> jsstring" where
  "format_result index result =
     str_nat (index + 1) @ js ''. '' @ message result @ [10]
     @ (case error result of
          None \<Rightarrow> []
        | Some e \<Rightarrow> if e = [] then [] else js ''   Error: '' @ e @ [10])
     @ (case data result of
          Some (FileContent d) \<Rightarrow>
            if d = [] then []
            else js ''   Data: '' @ take 200 d @ (if length d > 200 then js ''...'' else []) @ [10]
        | _ \<Rightarrow> [])"

definition format_results :: "ToolResult list \<Rightarrow> jsstring" where
  "format_results toolResults =
     concat (map (\<lambda>(index, result). format_result index result)
                 (zip [0..<length toolResults] toolResults))"

text \<open>\<^verbatim>\<open>array.slice(-n)\<close>: the last \<open>n\<close> elements.\<close>

definition slice_last :: "nat \<Rightarrow> 'a list \<Rightarrow> 'a list" where
  "slice_last n xs = drop (length xs - n) xs"

definition processMessage ::
    "'w externals \<Rightarrow> jsstring \<Rightarrow> 'w machine \<Rightarrow> jsstring \<times> 'w machine" where
  "processMessage X userMessage m0 =
     (let (t1, w1) = now X (world m0);
          m1 = m0\<lparr>world := w1,
                  heap := push_message (conversationHistory (agent_context m0))
                            \<lparr>role = User, content = userMessage, timestamp = t1\<rparr> (heap m0)\<rparr>;
          (systemPrompt, m2) = generateSystemPrompt X m1;
          messages = (System, systemPrompt)
            # map (\<lambda>msg. (role msg, content msg))
                (slice_last 10 (messageArrays (heap m2) (conversationHistory (agent_context m2))));
          (aiResponse, m3) = callOpenAI X messages m2;
          (toolResults, m4) = parseAndExecuteTools X aiResponse m3;
          finalResponse = aiResponse
            @ (if length toolResults > 0
               then [10, 10] @ js ''Tool Results:'' @ [10] @ format_results toolResults
               else []);
          (t2, w2) = now X (world m4);
          m5 = m4\<lparr>world := w2,
                  heap := push_message (conversationHistory (agent_context m4))
                            \<lparr>role = Assistant, content = finalResponse, timestamp = t2\<rparr> (heap m4)\<rparr>
      in (finalResponse, m5))"

text \<open>The direct tool methods of the agent.\<close>

definition agent_readFile ::
    "'w externals \<Rightarrow> jsstring \<Rightarrow> 'w machine \<Rightarrow> ToolResult \<times> 'w machine" where
  "agent_readFile X filePath m = FileTools_readFile X filePath m"

definition agent_writeFile ::
    "'w externals \<Rightarrow> jsstring \<Rightarrow> jsstring \<Rightarrow> 'w machine \<Rightarrow> ToolResult \<times> 'w machine" where
  "agent_writeFile X filePath c m = FileTools_writeFile X filePath (Some c) m"

definition agent_editFile ::
    "'w externals \<Rightarrow> jsstring \<Rightarrow> jsstring \<Rightarrow> 'w machine \<Rightarrow> ToolResult \<times> 'w machine" where
  "agent_editFile X filePath newContent m = FileTools_editFile X filePath (Some newContent) m"

definition agent_executeCommand ::
    "'w externals \<Rightarrow> jsstring \<Rightarrow> 'w machine \<Rightarrow> (exn + ToolResult) \<times> 'w machine" where
  "agent_executeCommand X cmd m =
     (if \<not> isSafeCommand (toLowerCase X) cmd then
        (Inr \<lparr>success = False, data = None, error = Some (js ''Command blocked for safety''),
              message = js ''Command blocked: '' @ cmd\<rparr>, m)
      else CommandTools_executeCommand X cmd m)"

definition agent_listFiles ::
    "'w externals \<Rightarrow> jsstring \<Rightarrow> 'w machine \<Rightarrow> ToolResult \<times> 'w machine" where
  "agent_listFiles X directory m = FileTools_listFiles X directory m"

definition agent_listEmails ::
    "'w externals \<Rightarrow> EmailSearchOptions \<Rightarrow> 'w machine \<Rightarrow> ToolResult \<times> 'w machine" where
  "agent_listEmails X options m = with_gmail (GmailTools_listEmails X options) m"

definition agent_getEmail ::
    "'w externals \<Rightarrow> jsstring \<Rightarrow> 'w machine \<Rightarrow> ToolResult \<times> 'w machine" where
  "agent_getEmail X messageId m = with_gmail (GmailTools_getEmail X messageId) m"

definition agent_sendEmail ::
    "'w externals \<Rightarrow> EmailDraft \<Rightarrow> 'w machine \<Rightarrow> ToolResult \<times> 'w machine" where
  "agent_sendEmail X draft m = with_gmail (GmailTools_sendEmail X draft) m"

definition agent_createDraft ::
    "'w externals \<Rightarrow> EmailDraft \<Rightarrow> 'w machine \<Rightarrow> ToolResult \<times> 'w machine" where
  "agent_createDraft X draft m = with_gmail (GmailTools_createDraft X draft) m"

definition agent_searchEmails ::
    "'w externals \<Rightarrow> jsstring \<Rightarrow> jsnum \<Rightarrow> 'w machine \<Rightarrow> ToolResult \<times> 'w machine" where
  "agent_searchEmails X query maxResults m =
     with_gmail (GmailTools_searchEmails X query maxResults) m"

definition agent_getUnreadEmails ::
    "'w externals \<Rightarrow> jsnum \<Rightarrow> 'w machine \<Rightarrow> ToolResult \<times> 'w machine" where
  "agent_getUnreadEmails X maxResults m = with_gmail (GmailTools_getUnreadEmails X maxResults) m"

definition agent_markAsRead ::
    "'w externals \<Rightarrow> jsstring \<Rightarrow> 'w machine \<Rightarrow> ToolResult \<times> 'w machine" where
  "agent_markAsRead X messageId m = with_gmail (GmailTools_markAsRead X messageId) m"

definition agent_deleteEmail ::
    "'w externals \<Rightarrow> jsstring \<Rightarrow> 'w machine \<Rightarrow> ToolResult \<times> 'w machine" where
  "agent_deleteEmail X messageId m = with_gmail (GmailTools_deleteEmail X messageId) m"

definition agent_getEmailContext ::
    "'w externals \<Rightarrow> jsstring \<Rightarrow> 'w machine \<Rightarrow> ToolResult \<times> 'w machine" where
  "agent_getEmailContext X messageId m = with_gmail (GmailTools_getEmailContext X messageId) m"

definition agent_analyzeEmailThread ::
    "'w externals \<Rightarrow> jsstring \<Rightarrow> 'w machine \<Rightarrow> ToolResult \<times> 'w machine" where
  "agent_analyzeEmailThread X thread m = with_gmail (GmailTools_analyzeEmailThread X thread) m"

text \<open>
  getContext: \<^verbatim>\<open>return { ...this.context }\<close>. The spread makes a new Context object with
  the same four field values: the string, and the references of the three arrays.
\<close>

definition getContext :: "'w machine \<Rightarrow> AgentContext" where
  "getContext m =
     \<lparr>currentDirectory = currentDirectory (agent_context m),
      recentFiles = recentFiles (agent_context m),
      recentCommands = recentCommands (agent_context m),
      conversationHistory = conversationHistory (agent_context m)\<rparr>"

text \<open>
  setCurrentDirectory: FileTools resolves the directory (\<^verbatim>\<open>path.resolve(directory)\<close>, so
  against the directory of the process), the context and CommandTools store it as given.
\<close>

definition setCurrentDirectory :: "'w externals \<Rightarrow> jsstring \<Rightarrow> 'w machine \<Rightarrow> 'w machine" where
  "setCurrentDirectory X directory m =
     m\<lparr>agent_context := (agent_context m)\<lparr>currentDirectory := directory\<rparr>,
       fileTools_currentDirectory := path_resolve X (process_cwd X) directory,
       commandTools_currentDirectory := directory\<rparr>"

text \<open>The object getMCPContext returns.\<close>

record MCPContext =
  mcp_currentDirectory :: jsstring
  mcp_recentFiles :: nat
  mcp_recentCommands :: nat
  mcp_conversationHistory :: nat
  gmailAvailable :: bool

definition getMCPContext :: "'w machine \<Rightarrow> MCPContext" where
  "getMCPContext m =
     \<lparr>mcp_currentDirectory = currentDirectory (agent_context m),
      mcp_recentFiles = recentFiles (agent_context m),
      mcp_recentCommands = recentCommands (agent_context m),
      mcp_conversationHistory =
        length (messageArrays (heap m) (conversationHistory (agent_context m))),
      gmailAvailable = (gmailTools m \<noteq> None)\<rparr>"

section \<open>The orchestration loop: class CLI (cli.ts)\<close>

text \<open>
  What the terminal shows is not part of the state. A handler either handles the input
  (\<open>Handled\<close>), leaves it to the next one (\<open>NotHandled\<close>), or ends the process
  (\<open>Exited\<close>, for quit and exit).
\<close>

datatype 'w handled = Handled "'w machine" | NotHandled | Exited

definition handleSpecialCommands ::
    "'w externals \<Rightarrow> jsstring \<Rightarrow> 'w machine \<Rightarrow> 'w handled" where
  "handleSpecialCommands X input m =
     (let trimmed = js_trim input; c = toLowerCase X trimmed
      in if c = js ''help'' then Handled m
         else if c = js ''quit'' \<or> c = js ''exit'' then Exited
         else if c = js ''clear'' then Handled m
         else if c = js ''context'' then Handled m
         else NotHandled)"

text \<open>
  handleBuiltInCommands: each verb calls one method of the agent; the ToolResult is only
  printed. A rejected executeCommand is caught by the loop of start, with the state as
  the call left it.
\<close>

definition handleBuiltInCommands ::
    "'w externals \<Rightarrow> jsstring \<Rightarrow> 'w machine \<Rightarrow> 'w handled" where
  "handleBuiltInCommands X input m =
     (let parts = js_split 32 (js_trim input);
          c = toLowerCase X (case parts of [] \<Rightarrow> [] | p # _ \<Rightarrow> p);
          part = (\<lambda>i. if i < length parts then parts ! i else []);
          draft = \<lparr>draft_to = [part 1], draft_subject = part 2,
                    draft_body = js_join [32] (drop 3 parts)\<rparr>
      in if c = js ''cd'' then
           (if length parts < 2 then Handled m else Handled (setCurrentDirectory X (part 1) m))
         else if c = js ''ls'' \<or> c = js ''list'' then
           Handled (snd (agent_listFiles X (js ''.'') m))
         else if c = js ''read'' then
           (if length parts < 2 then Handled m else Handled (snd (agent_readFile X (part 1) m)))
         else if c = js ''write'' then
           (if length parts < 3 then Handled m
            else Handled (snd (agent_writeFile X (part 1) (js_join [32] (drop 2 parts)) m)))
         else if c = js ''run'' then
           (if length parts < 2 then Handled m
            else Handled (snd (agent_executeCommand X (js_join [32] (drop 1 parts)) m)))
         else if c = js ''emails'' then
           Handled (snd (agent_listEmails X \<lparr>opt_query = None, opt_maxResults = None\<rparr> m))
         else if c = js ''unread'' then
           Handled (snd (agent_getUnreadEmails X (Num 10) m))
         else if c = js ''search'' then
           (if length parts < 2 then Handled m
            else Handled (snd (agent_searchEmails X (js_join [32] (drop 1 parts)) (Num 10) m)))
         else if c = js ''email'' then
           (if length parts < 2 then Handled m else Handled (snd (agent_getEmail X (part 1) m)))
         else if c = js ''send'' then
           (if length parts < 4 then Handled m else Handled (snd (agent_sendEmail X draft m)))
         else if c = js ''draft'' then
           (if length parts < 4 then Handled m else Handled (snd (agent_createDraft X draft m)))
         else if c = js ''read-email'' then
           (if length parts < 2 then Handled m else Handled (snd (agent_markAsRead X (part 1) m)))
         else if c = js ''delete-email'' then
           (if length parts < 2 then Handled m else Handled (snd (agent_deleteEmail X (part 1) m)))
         else if c = js ''analyze'' then
           (if length parts < 2 then Handled m
            else Handled (snd (agent_analyzeEmailThread X (part 1) m)))
         else NotHandled)"

text \<open>
  One round of the \<^verbatim>\<open>while (true)\<close> loop of start, for the line the user entered: the
  state when the loop is ready for the next line, or \<open>None\<close> when the process has ended.
\<close>

definition cli_turn :: "'w externals \<Rightarrow> jsstring \<Rightarrow> 'w machine \<Rightarrow> 'w machine option" where
  "cli_turn X input m =
     (if js_trim input = [] then Some m
      else (case handleSpecialCommands X input m of
              Exited \<Rightarrow> None
            | Handled m' \<Rightarrow> Some m'
            | NotHandled \<Rightarrow>
                (case handleBuiltInCommands X input m of
                   Exited \<Rightarrow> None
                 | Handled m' \<Rightarrow> Some m'
                 | NotHandled \<Rightarrow> Some (snd (processMessage X input m)))))"

section \<open>The properties the specification names\<close>

text \<open>
  The invariant of a Result: a Result that carries an error is a failure, and its
  message is there (a ToolResult always has the field; here it is also not empty).
\<close>

definition Result_invariant :: "ToolResult \<Rightarrow> bool" where
  "Result_invariant r = ((error r \<noteq> None \<longrightarrow> \<not> success r) \<and> message r \<noteq> [])"

text \<open>
  A text as pieces in order: \<open>weave gaps ms\<close> is the first gap, the first match, the
  second gap, the second match, and so on to the last gap.
\<close>

fun weave :: "jsstring list \<Rightarrow> jsstring list \<Rightarrow> jsstring" where
  "weave [] ms = []"
| "weave (g # gs) [] = g"
| "weave (g # gs) (m # ms) = g @ m @ weave gs ms"

text \<open>
  The states the agent reaches: from its constructor, by its public methods and by the
  rounds of the dispatch loop and of the command line. getContext and getMCPContext
  only read the state, so they are no steps.
\<close>

inductive reachable :: "'w externals \<Rightarrow> 'w machine \<Rightarrow> bool" for X :: "'w externals" where
  constructed: "reachable X (CodingAgent_new X config gmailConfig h0 w)"
| processed: "reachable X m \<Longrightarrow> reachable X (snd (processMessage X userMessage m))"
| dispatched: "reachable X m \<Longrightarrow> reachable X (snd (parseAndExecuteTools X response m))"
| did_readFile: "reachable X m \<Longrightarrow> reachable X (snd (agent_readFile X filePath m))"
| did_writeFile: "reachable X m \<Longrightarrow> reachable X (snd (agent_writeFile X filePath c m))"
| did_editFile: "reachable X m \<Longrightarrow> reachable X (snd (agent_editFile X filePath c m))"
| did_executeCommand: "reachable X m \<Longrightarrow> reachable X (snd (agent_executeCommand X cmd m))"
| did_listFiles: "reachable X m \<Longrightarrow> reachable X (snd (agent_listFiles X directory m))"
| did_listEmails: "reachable X m \<Longrightarrow> reachable X (snd (agent_listEmails X options m))"
| did_getEmail: "reachable X m \<Longrightarrow> reachable X (snd (agent_getEmail X messageId m))"
| did_sendEmail: "reachable X m \<Longrightarrow> reachable X (snd (agent_sendEmail X draft m))"
| did_createDraft: "reachable X m \<Longrightarrow> reachable X (snd (agent_createDraft X draft m))"
| did_searchEmails: "reachable X m \<Longrightarrow> reachable X (snd (agent_searchEmails X query n m))"
| did_getUnreadEmails: "reachable X m \<Longrightarrow> reachable X (snd (agent_getUnreadEmails X n m))"
| did_markAsRead: "reachable X m \<Longrightarrow> reachable X (snd (agent_markAsRead X messageId m))"
| did_deleteEmail: "reachable X m \<Longrightarrow> reachable X (snd (agent_deleteEmail X messageId m))"
| did_getEmailContext: "reachable X m \<Longrightarrow> reachable X (snd (agent_getEmailContext X messageId m))"
| did_analyzeEmailThread:
    "reachable X m \<Longrightarrow> reachable X (snd (agent_analyzeEmailThread X thread m))"
| did_setCurrentDirectory: "reachable X m \<Longrightarrow> reachable X (setCurrentDirectory X directory m)"
| turned: "reachable X m \<Longrightarrow> cli_turn X input m = Some m' \<Longrightarrow> reachable X m'"

code_pred reachable .

text \<open>
  What an operation leaves as it was when it does not touch the two lists of the
  Context: the arrays of strings and the two references.
\<close>

definition lists_kept :: "'w machine \<Rightarrow> 'w machine \<Rightarrow> bool" where
  "lists_kept m m' =
     (stringArrays (heap m') = stringArrays (heap m)
      \<and> recentFiles (agent_context m') = recentFiles (agent_context m)
      \<and> recentCommands (agent_context m') = recentCommands (agent_context m))"

section \<open>A small world for the examples\<close>

text \<open>
  A world that is a clock. No file exists, every command prints \<^verbatim>\<open>hi\<close> and exits
  with 0, the mailbox is empty, and the model answers with one call.
\<close>

definition demo_externals :: "nat externals" where
  "demo_externals =
     \<lparr>toLowerCase = ascii_lower,
      process_cwd = js ''/work'',
      path_resolve = (\<lambda>base p. base @ [47] @ p),
      path_dirname = (\<lambda>p. js ''/work''),
      path_join = (\<lambda>a b. a @ [47] @ b),
      fs_existsSync = (\<lambda>w p. False),
      fs_readFileSync = (\<lambda>w p. Inl (Error (js ''ENOENT''))),
      fs_writeFileSync = (\<lambda>w p c. (None, w)),
      fs_mkdirSync = (\<lambda>w p. (None, w)),
      fs_readdirSync = (\<lambda>w p. Inr []),
      fs_statSync = (\<lambda>w p. Inr (False, 0, 0)),
      child_exec = (\<lambda>w cwd c. (Close (js ''hi'' @ [10]) [] (Some 0), w)),
      now = (\<lambda>w. (w, Suc w)),
      openai_create = (\<lambda>w cfg msgs. (Inr (Some (js ''readFile(missing.txt)'')), w)),
      google_authenticate = (\<lambda>w cfg. (None, w)),
      gmail_list = (\<lambda>w q n. (Inr \<lparr>message_ids = [], nextPageToken = None,
                                    resultSizeEstimate = None\<rparr>, w)),
      gmail_get = (\<lambda>w i. (Inl (Error (js ''Not Found'')), w)),
      gmail_send = (\<lambda>w d. (Inr [], w)),
      gmail_drafts_create = (\<lambda>w d. (Inr [], w)),
      gmail_modify = (\<lambda>w i. (None, w)),
      gmail_delete = (\<lambda>w i. (None, w)),
      gmail_threads_get = (\<lambda>w i. (Inl (Error (js ''Not Found'')), w))\<rparr>"

text \<open>The same world with a shell whose \<^verbatim>\<open>exec\<close> throws.\<close>

definition throwing_externals :: "nat externals" where
  "throwing_externals =
     demo_externals\<lparr>child_exec := (\<lambda>w cwd c. (Throws (Error (js ''spawn E2BIG'')), w))\<rparr>"

text \<open>The same world with a file system in which every file exists and none can be read.\<close>

definition locked_externals :: "nat externals" where
  "locked_externals =
     demo_externals\<lparr>fs_existsSync := (\<lambda>w p. True),
                     fs_readFileSync := (\<lambda>w p. Inl (Error (js ''EACCES: permission denied'')))\<rparr>"

definition demo_config :: AgentConfig where
  "demo_config = \<lparr>agent_name = js ''CodingAgent'', maxTokens = Num 4000,
                   temperature = js ''0.1'', apiKey = js ''key''\<rparr>"

definition demo_gmailConfig :: GmailConfig where
  "demo_gmailConfig = \<lparr>credentialsPath = js ''credentials.json'', tokenPath = js ''token.json'',
                        scopes = []\<rparr>"

definition empty_heap :: js_heap where
  "empty_heap = \<lparr>stringArrays = (\<lambda>r. []), messageArrays = (\<lambda>r. []), nextRef = 0\<rparr>"

text \<open>An agent without and an agent with the mailbox, as their constructor leaves them.\<close>

definition demo_machine :: "nat machine" where
  "demo_machine = CodingAgent_new demo_externals demo_config None empty_heap 0"

definition demo_gmail_machine :: "nat machine" where
  "demo_gmail_machine =
     CodingAgent_new demo_externals demo_config (Some demo_gmailConfig) empty_heap 0"

section \<open>Properties of the Call Extractor\<close>

lemma space_not_word: "isSpace c \<Longrightarrow> \<not> isWord c"
  by (auto simp: isSpace_def isWord_def)

lemma match_args_shape:
  assumes "match_args s = Some (ws, as, rest)"
  shows "s = ws @ [40] @ as @ [41] @ rest \<and> list_all isSpace ws \<and> as \<noteq> [] \<and> 41 \<notin> set as"
proof -
  from assms obtain s2 where d: "dropWhile isSpace s = 40 # s2" and w: "ws = takeWhile isSpace s"
    by (auto simp: match_args_def Let_def split: list.splits if_splits)
  from assms d obtain x where r0: "dropWhile (\<lambda>c. c \<noteq> 41) s2 = x # rest"
    and a: "as = takeWhile (\<lambda>c. c \<noteq> 41) s2" and ne: "as \<noteq> []"
    by (auto simp: match_args_def Let_def split: list.splits if_splits)
  from hd_dropWhile[of "\<lambda>c. c \<noteq> 41" s2] r0 have "x = 41" by auto
  with r0 have r: "dropWhile (\<lambda>c. c \<noteq> 41) s2 = 41 # rest" by simp
  have "s = takeWhile isSpace s @ dropWhile isSpace s" by simp
  moreover have "s2 = takeWhile (\<lambda>c. c \<noteq> 41) s2 @ dropWhile (\<lambda>c. c \<noteq> 41) s2" by simp
  ultimately have "s = ws @ [40] @ as @ [41] @ rest" using d w r a by simp
  moreover have "list_all isSpace ws" using w by (simp add: list_all_iff) (meson set_takeWhileD)
  moreover have "41 \<notin> set as" using a by (auto dest: set_takeWhileD)
  ultimately show ?thesis using ne by simp
qed

lemma match_args_intro:
  assumes "list_all isSpace ws" "as \<noteq> []" "41 \<notin> set as"
  shows "match_args (ws @ [40] @ as @ [41] @ rest) = Some (ws, as, rest)"
proof -
  have n40: "\<not> isSpace 40" by (simp add: isSpace_def)
  have t: "takeWhile isSpace (ws @ 40 # as @ 41 # rest) = ws"
    using assms(1) n40 by (simp add: takeWhile_append2 list_all_iff)
  have d: "dropWhile isSpace (ws @ 40 # as @ 41 # rest) = 40 # as @ 41 # rest"
    using assms(1) n40 by (simp add: dropWhile_append2 list_all_iff)
  have ne41: "\<forall>x\<in>set as. x \<noteq> 41" using assms(3) by auto
  have t2: "takeWhile (\<lambda>c. c \<noteq> 41) (as @ 41 # rest) = as"
    using ne41 by simp
  have d2: "dropWhile (\<lambda>c. c \<noteq> 41) (as @ 41 # rest) = 41 # rest"
    using ne41 by simp
  show ?thesis using assms(2) by (simp add: match_args_def t d t2 d2)
qed

lemma match_names_shape:
  "match_names ns s = Some (m, rest) \<Longrightarrow>
     \<exists>n ws as. n \<in> set ns \<and> s = m @ rest \<and> m = n @ ws @ [40] @ as @ [41]
        \<and> list_all isSpace ws \<and> as \<noteq> [] \<and> 41 \<notin> set as"
proof (induction ns)
  case Nil then show ?case by simp
next
  case (Cons n ns)
  show ?case
  proof (cases "prefix n s")
    case False
    with Cons show ?thesis by auto
  next
    case True
    then obtain t where s: "s = n @ t" by (auto simp: prefix_def)
    show ?thesis
    proof (cases "match_args t")
      case None
      with Cons True s show ?thesis by auto
    next
      case (Some r)
      obtain ws as rest' where r: "r = (ws, as, rest')" by (cases r) auto
      from match_args_shape[OF Some[unfolded r]] Cons.prems True s Some r
      show ?thesis by auto
    qed
  qed
qed

lemma scan_shape:
  "m \<in> set (scan prev s) \<Longrightarrow>
     \<exists>n ws as. n \<in> set toolNames \<and> m = n @ ws @ [40] @ as @ [41]
        \<and> list_all isSpace ws \<and> as \<noteq> [] \<and> 41 \<notin> set as"
proof (induction prev s rule: scan.induct)
  case (1 prev)
  then show ?case by simp
next
  case (2 prev c cs)
  let ?b = "(case prev of None \<Rightarrow> False | Some p \<Rightarrow> isWord p) \<noteq> isWord c"
  show ?case
  proof (cases ?b)
    case False
    with "2.prems" have "m \<in> set (scan (Some c) cs)" by simp
    with "2.IH"(3)[OF False] show ?thesis .
  next
    case True
    show ?thesis
    proof (cases "match_names toolNames (c # cs)")
      case None
      with True "2.prems" have "m \<in> set (scan (Some c) cs)" by simp
      with "2.IH"(1)[OF True None] show ?thesis .
    next
      case (Some r)
      obtain m' rest where r: "r = (m', rest)" by (cases r) auto
      from True Some r "2.prems" have "m = m' \<or> m \<in> set (scan (Some 41) rest)" by simp
      then show ?thesis
      proof
        assume "m = m'"
        with match_names_shape[OF Some[unfolded r]] show ?thesis by blast
      next
        assume "m \<in> set (scan (Some 41) rest)"
        with "2.IH"(2)[OF True Some r[symmetric]] show ?thesis .
      qed
    qed
  qed
qed

lemma toolNames_word: "n \<in> set toolNames \<Longrightarrow> n \<noteq> [] \<and> list_all isWord n"
  by (auto simp: toolNames_def js_def isWord_def)

lemma match_call_recovers:
  assumes "n \<noteq> []" "list_all isWord n" "list_all isSpace ws" "as \<noteq> []" "41 \<notin> set as"
  shows "match_call (n @ ws @ [40] @ as @ [41]) = Some (n, as)"
proof -
  let ?t = "ws @ [40] @ as @ [41]"
  have nw: "\<not> isWord (hd ?t)"
    using assms(3) by (cases ws) (auto simp: isWord_def dest: space_not_word)
  have tne: "?t \<noteq> []" by simp
  have t: "takeWhile isWord (n @ ?t) = n"
    using assms(2) nw tne by (cases ?t) (auto simp: list_all_iff takeWhile_append2 simp del: append_assoc)
  have d: "dropWhile isWord (n @ ?t) = ?t"
    using assms(2) nw tne by (cases ?t) (auto simp: list_all_iff dropWhile_append2 simp del: append_assoc)
  have a: "match_args ?t = Some (ws, as, [])"
    using match_args_intro[OF assms(3,4,5), of "[]"] by simp
  have "match_call_at (n @ ?t) = Some (n, as)"
    unfolding match_call_at_def t d a using assms(1) by simp
  moreover obtain c n' where "n = c # n'" using assms(1) by (cases n) auto
  ultimately show ?thesis by simp
qed


lemma extractCalls_matches:
  "list_all2 (\<lambda>m (f, args). \<exists>ws as. f \<in> set toolNames \<and> list_all isSpace ws \<and> as \<noteq> []
        \<and> 41 \<notin> set as \<and> m = f @ ws @ [40] @ as @ [41] \<and> args = parse_args as)
     (toolCalls response) (extractCalls response)"
proof -
  have "\<forall>m \<in> set ms. \<exists>n ws as. n \<in> set toolNames \<and> m = n @ ws @ [40] @ as @ [41]
        \<and> list_all isSpace ws \<and> as \<noteq> [] \<and> 41 \<notin> set as \<Longrightarrow>
     list_all2 (\<lambda>m (f, args). \<exists>ws as. f \<in> set toolNames \<and> list_all isSpace ws \<and> as \<noteq> []
        \<and> 41 \<notin> set as \<and> m = f @ ws @ [40] @ as @ [41] \<and> args = parse_args as)
       ms (concat (map (\<lambda>toolCall. case match_call toolCall of
                                None \<Rightarrow> []
                              | Some (funcName, argsStr) \<Rightarrow> [(funcName, parse_args argsStr)]) ms))" for ms
  proof (induction ms)
    case Nil
    then show ?case by simp
  next
    case (Cons m ms)
    then obtain n ws as where m: "n \<in> set toolNames" "m = n @ ws @ [40] @ as @ [41]"
        "list_all isSpace ws" "as \<noteq> []" "41 \<notin> set as" by auto
    from toolNames_word[OF m(1)] have "n \<noteq> []" "list_all isWord n" by auto
    from match_call_recovers[OF this m(3,4,5)] m(2) have "match_call m = Some (n, as)"
      by simp
    with Cons m show ?case by auto
  qed
  moreover have "\<forall>m \<in> set (toolCalls response). \<exists>n ws as. n \<in> set toolNames \<and> m = n @ ws @ [40] @ as @ [41]
        \<and> list_all isSpace ws \<and> as \<noteq> [] \<and> 41 \<notin> set as"
    unfolding toolCalls_def using scan_shape by blast
  ultimately show ?thesis unfolding extractCalls_def by blast
qed

lemma match_args_empty_parens:
  assumes "list_all isWord r" "list_all isSpace ws"
  shows "match_args (r @ ws @ 40 # 41 # post) = None"
proof (cases r)
  case Nil
  have n40: "\<not> isSpace 40" by (simp add: isSpace_def)
  have "dropWhile isSpace (ws @ 40 # 41 # post) = 40 # 41 # post"
    using assms(2) n40 by (simp add: list_all_iff)
  with Nil show ?thesis by (simp add: match_args_def)
next
  case (Cons c r')
  with assms(1) have "isWord c" by simp
  then have "\<not> isSpace c" "c \<noteq> 40" by (auto simp: isWord_def dest: space_not_word)
  with Cons show ?thesis by (simp add: match_args_def)
qed

lemma match_names_empty_parens:
  assumes "list_all isWord n" "list_all isSpace ws" "\<forall>n' \<in> set ns. list_all isWord n'"
  shows "match_names ns (n @ ws @ 40 # 41 # post) = None"
  using assms(3)
proof (induction ns)
  case Nil
  then show ?case by simp
next
  case (Cons n' ns)
  let ?t = "ws @ 40 # 41 # post"
  have rest: "match_names ns (n @ ?t) = None" using Cons by simp
  show ?case
  proof (cases "prefix n' (n @ ?t)")
    case False
    with rest show ?thesis by simp
  next
    case True
    have nw: "\<not> isWord (hd ?t)"
      using assms(2) by (cases ws) (auto simp: isWord_def dest: space_not_word)
    from True have "prefix n' n \<or> (\<exists>us. n' = n @ us \<and> prefix us ?t)"
      by (simp add: prefix_append)
    then have pn: "prefix n' n"
    proof
      assume "prefix n' n" then show ?thesis .
    next
      assume "\<exists>us. n' = n @ us \<and> prefix us ?t"
      then obtain us where us: "n' = n @ us" "prefix us ?t" by blast
      show ?thesis
      proof (cases us)
        case Nil
        with us show ?thesis by simp
      next
        case (Cons u us')
        with us(2) have "u = hd ?t" by (cases ?t) auto
        moreover from Cons us(1) Cons.prems \<open>\<forall>n' \<in> set (n' # ns). list_all isWord n'\<close>
        have "isWord u" by simp
        ultimately show ?thesis using nw by simp
      qed
    qed
    then obtain r where r: "n = n' @ r" by (auto simp: prefix_def)
    with assms(1) have "list_all isWord r" by simp
    from match_args_empty_parens[OF this assms(2)] r
    have "match_args (drop (length n') (n @ ?t)) = None" by simp
    with True rest show ?thesis by simp
  qed
qed

lemma toolCalls_empty_parens:
  "\<forall>n \<in> set toolNames. toolCalls (n @ [40, 41]) = []"
  by (simp add: toolNames_def js_def toolCalls_def match_args_def isWord_def isSpace_def)

text \<open>
  C9. A call written with empty parentheses is never extracted. Every match of the first
  pattern has at least one code unit other than the closing parenthesis between its
  parentheses, and every call that reaches the dispatch loop was written so; where a
  known name is followed by white space and \<^verbatim>\<open>()\<close> the pattern does not match, whatever
  follows; and a response that is just such a call yields no call at all.
\<close>

theorem empty_parentheses_not_extracted:
  "(\<forall>m \<in> set (toolCalls response). \<exists>n ws as. n \<in> set toolNames \<and> list_all isSpace ws \<and> as \<noteq> []
        \<and> 41 \<notin> set as \<and> m = n @ ws @ [40] @ as @ [41])
   \<and> (\<forall>call \<in> set (extractCalls response). \<exists>ws as. as \<noteq> []
        \<and> fst call @ ws @ [40] @ as @ [41] \<in> set (toolCalls response))
   \<and> (\<forall>n \<in> set toolNames. \<forall>ws post. list_all isSpace ws \<longrightarrow>
        match_names toolNames (n @ ws @ [40, 41] @ post) = None)
   \<and> (\<forall>n \<in> set toolNames. extractCalls (n @ [40, 41]) = [])"
proof (intro conjI)
  show "\<forall>m \<in> set (toolCalls response). \<exists>n ws as. n \<in> set toolNames \<and> list_all isSpace ws \<and> as \<noteq> []
        \<and> 41 \<notin> set as \<and> m = n @ ws @ [40] @ as @ [41]"
    unfolding toolCalls_def using scan_shape by blast
next
  show "\<forall>call \<in> set (extractCalls response). \<exists>ws as. as \<noteq> []
        \<and> fst call @ ws @ [40] @ as @ [41] \<in> set (toolCalls response)"
  proof
    fix call assume "call \<in> set (extractCalls response)"
    then obtain i where i: "i < length (extractCalls response)" "call = extractCalls response ! i"
      by (auto simp: in_set_conv_nth)
    from extractCalls_matches[of response]
    have len: "length (toolCalls response) = length (extractCalls response)"
      and nth: "\<And>i. i < length (toolCalls response) \<Longrightarrow>
        (case extractCalls response ! i of (f, args) \<Rightarrow> \<exists>ws as. f \<in> set toolNames
          \<and> list_all isSpace ws \<and> as \<noteq> [] \<and> 41 \<notin> set as
          \<and> toolCalls response ! i = f @ ws @ [40] @ as @ [41] \<and> args = parse_args as)"
      by (auto simp: list_all2_conv_all_nth)
    from nth[of i] i len obtain ws as where
      "as \<noteq> []" "toolCalls response ! i = fst call @ ws @ [40] @ as @ [41]"
      by (cases call) auto
    moreover have "toolCalls response ! i \<in> set (toolCalls response)"
      using i len by simp
    ultimately show "\<exists>ws as. as \<noteq> [] \<and> fst call @ ws @ [40] @ as @ [41] \<in> set (toolCalls response)"
      by metis
  qed
next
  show "\<forall>n \<in> set toolNames. \<forall>ws post. list_all isSpace ws \<longrightarrow>
        match_names toolNames (n @ ws @ [40, 41] @ post) = None"
    using match_names_empty_parens toolNames_word by simp
next
  show "\<forall>n \<in> set toolNames. extractCalls (n @ [40, 41]) = []"
    using toolCalls_empty_parens by (simp add: extractCalls_def)
qed

theorem empty_parentheses_not_extracted_witness:
  "js ''readFile(a)'' \<in> set (toolCalls (js ''listEmails() readFile(a)''))
   \<and> (\<exists>n ws as. n \<in> set toolNames \<and> list_all isSpace ws \<and> as \<noteq> [] \<and> 41 \<notin> set as
          \<and> js ''readFile(a)'' = n @ ws @ [40] @ as @ [41])
   \<and> js ''getUnreadEmails'' \<in> set toolNames
   \<and> match_names toolNames (js ''getUnreadEmails'' @ [32] @ [40, 41] @ js '' now'') = None
   \<and> extractCalls (js ''getUnreadEmails'' @ [40, 41]) = []"
proof -
  note t = empty_parentheses_not_extracted[of "js ''listEmails() readFile(a)''"]
  have m: "js ''readFile(a)'' \<in> set (toolCalls (js ''listEmails() readFile(a)''))"
    by (simp add: toolNames_def js_def toolCalls_def match_args_def isWord_def isSpace_def)
  have n: "js ''getUnreadEmails'' \<in> set toolNames"
    by (simp add: toolNames_def)
  have w: "list_all isSpace [32]"
    by (simp add: isSpace_def)
  from t[THEN conjunct1, rule_format, OF m]
  have c1: "\<exists>n ws as. n \<in> set toolNames \<and> list_all isSpace ws \<and> as \<noteq> [] \<and> 41 \<notin> set as
          \<and> js ''readFile(a)'' = n @ ws @ [40] @ as @ [41]" .
  from t[THEN conjunct2, THEN conjunct2, THEN conjunct1, rule_format, OF n w]
  have c3: "match_names toolNames (js ''getUnreadEmails'' @ [32] @ [40, 41] @ js '' now'') = None" .
  from t[THEN conjunct2, THEN conjunct2, THEN conjunct2, rule_format, OF n]
  have c4: "extractCalls (js ''getUnreadEmails'' @ [40, 41]) = []" .
  from m c1 n c3 c4 show ?thesis by blast
qed

section \<open>Properties of the Dispatcher and the Safety Gate\<close>

lemma js_Nil [simp]: "js [] = []"
  by (simp add: js_def)

lemma js_eq_Nil [simp]: "(js s = []) = (s = [])"
  by (simp add: js_def)

lemma js_includes_sublist: "js_includes s sub = sublist sub s"
  by (induction s) (auto simp: sublist_Cons_right)

text \<open>
  C1. With no mailbox configured, eight of the ten mailbox names give the result "Gmail
  tools not available" and leave the state as it was (lemma
  \<open>mailbox_cases_not_available\<close> below). The switch has no case for sendEmail and
  createDraft, although the pattern extracts both names: for them the default case
  answers "Unknown tool", whatever the arguments and whether or not a mailbox is
  configured. The last part runs the response \<^verbatim>\<open>sendEmail(draft)\<close> through the whole
  loop of an agent without mailbox.
\<close>

theorem dispatch_sendEmail_createDraft_unknown_tool:
  "dispatch X (js ''sendEmail'') arg0 rest m =
     (Inr \<lparr>success = False, data = None, error = Some (js ''Unknown tool''),
           message = js ''Unknown tool: sendEmail''\<rparr>, m)
   \<and> dispatch X (js ''createDraft'') arg0 rest m =
     (Inr \<lparr>success = False, data = None, error = Some (js ''Unknown tool''),
           message = js ''Unknown tool: createDraft''\<rparr>, m)
   \<and> fst (parseAndExecuteTools demo_externals (js ''sendEmail(draft)'') demo_machine) =
     [\<lparr>success = False, data = None, error = Some (js ''Unknown tool''),
       message = js ''Unknown tool: sendEmail''\<rparr>]"
proof (intro conjI)
  show "dispatch X (js ''sendEmail'') arg0 rest m =
     (Inr \<lparr>success = False, data = None, error = Some (js ''Unknown tool''),
           message = js ''Unknown tool: sendEmail''\<rparr>, m)"
    by (simp add: dispatch_def js_def)
  show "dispatch X (js ''createDraft'') arg0 rest m =
     (Inr \<lparr>success = False, data = None, error = Some (js ''Unknown tool''),
           message = js ''Unknown tool: createDraft''\<rparr>, m)"
    by (simp add: dispatch_def js_def)
  have tc: "toolCalls (js ''sendEmail(draft)'') = [js ''sendEmail(draft)'']"
    by (simp add: toolNames_def js_def toolCalls_def match_args_def isWord_def isSpace_def)
  have mc: "match_call (js ''sendEmail(draft)'') = Some (js ''sendEmail'', js ''draft'')"
    by (simp add: js_def match_call_at_def match_args_def isWord_def isSpace_def)
  have pa: "parse_args (js ''draft'') = [js ''draft'']"
    by (simp add: js_def parse_args_def strip_quotes_def js_trim_def isSpace_def)
  show "fst (parseAndExecuteTools demo_externals (js ''sendEmail(draft)'') demo_machine) =
     [\<lparr>success = False, data = None, error = Some (js ''Unknown tool''),
       message = js ''Unknown tool: sendEmail''\<rparr>]"
    unfolding parseAndExecuteTools_def tc
    by (simp add: run_toolCall_def mc pa) (simp add: dispatch_def js_def)
qed

lemma mailbox_cases_not_available:
  assumes "gmailTools m = None"
    and "funcName \<in> set (map js [''listEmails'', ''getEmail'', ''searchEmails'', ''getUnreadEmails'',
           ''markAsRead'', ''deleteEmail'', ''getEmailContext'', ''analyzeEmailThread''])"
  shows "dispatch X funcName arg0 rest m = (Inr gmail_not_available, m)"
  using assms by (auto simp: dispatch_def with_gmail_def js_def)

text \<open>
  C3. isSafeCommand is false exactly when the lower-cased command contains an entry of
  the deny list (the entries are lower-case ASCII, which lower-casing leaves as they
  are: the assumption), and true otherwise. Dispatching executeCommand with a command
  that contains an entry returns the Result "Command blocked for safety" and the state
  unchanged: the trace shows no call of the Process capability, and the world is the
  same.
\<close>

theorem deny_listed_command_blocked:
  assumes "\<forall>d \<in> set dangerousCommands. toLowerCase X d = d"
  shows "(isSafeCommand (toLowerCase X) cmd
          \<longleftrightarrow> \<not> (\<exists>d \<in> set dangerousCommands. sublist d (toLowerCase X cmd)))
   \<and> ((\<exists>d \<in> set dangerousCommands. sublist d (toLowerCase X cmd)) \<longrightarrow>
        dispatch X (js ''executeCommand'') cmd rest m =
          (Inr \<lparr>success = False, data = None, error = Some (js ''Command blocked for safety''),
                message = js ''Command blocked: '' @ cmd\<rparr>, m))"
proof -
  have safe: "isSafeCommand (toLowerCase X) cmd
          \<longleftrightarrow> \<not> (\<exists>d \<in> set dangerousCommands. sublist d (toLowerCase X cmd))"
    using assms by (simp add: isSafeCommand_def list_ex_iff js_includes_sublist)
  have "\<not> isSafeCommand (toLowerCase X) cmd \<Longrightarrow>
        dispatch X (js ''executeCommand'') cmd rest m =
          (Inr \<lparr>success = False, data = None, error = Some (js ''Command blocked for safety''),
                message = js ''Command blocked: '' @ cmd\<rparr>, m)"
    by (simp add: dispatch_def js_def)
  with safe show ?thesis by blast
qed

theorem deny_listed_command_blocked_witness:
  "\<not> isSafeCommand (toLowerCase demo_externals) (js ''sudo RM -RF /'')
   \<and> dispatch demo_externals (js ''executeCommand'') (js ''sudo RM -RF /'') [] demo_machine =
          (Inr \<lparr>success = False, data = None, error = Some (js ''Command blocked for safety''),
                message = js ''Command blocked: sudo RM -RF /''\<rparr>, demo_machine)
   \<and> isSafeCommand (toLowerCase demo_externals) (js ''ls -la'')"
proof -
  have fixed: "\<forall>d \<in> set dangerousCommands. toLowerCase demo_externals d = d"
    by (simp add: dangerousCommands_def demo_externals_def ascii_lower_def js_def)
  note t = deny_listed_command_blocked[OF fixed]
  have low: "toLowerCase demo_externals (js ''sudo RM -RF /'') = js ''sudo '' @ js ''rm -rf'' @ js '' /''"
    by (simp add: demo_externals_def ascii_lower_def js_def)
  have "js ''rm -rf'' \<in> set dangerousCommands" by (simp add: dangerousCommands_def)
  moreover have "sublist (js ''rm -rf'') (toLowerCase demo_externals (js ''sudo RM -RF /''))"
    unfolding low by (rule sublist_appendI)
  ultimately have ex: "\<exists>d \<in> set dangerousCommands. sublist d (toLowerCase demo_externals (js ''sudo RM -RF /''))"
    by blast
  from t[of "js ''sudo RM -RF /''"] ex
  have a: "\<not> isSafeCommand (toLowerCase demo_externals) (js ''sudo RM -RF /'')" by blast
  from t[of "js ''sudo RM -RF /''" "[]" demo_machine] ex
  have b: "dispatch demo_externals (js ''executeCommand'') (js ''sudo RM -RF /'') [] demo_machine =
          (Inr \<lparr>success = False, data = None, error = Some (js ''Command blocked for safety''),
                message = js ''Command blocked: sudo RM -RF /''\<rparr>, demo_machine)"
    by (simp add: js_def)
  have c: "isSafeCommand (toLowerCase demo_externals) (js ''ls -la'')"
    by (simp add: isSafeCommand_def dangerousCommands_def demo_externals_def ascii_lower_def js_def)
  from a b c show ?thesis by blast
qed

section \<open>The optional integer argument\<close>

lemma str_nat_digits: "c \<in> set (str_nat n) \<Longrightarrow> 48 \<le> c \<and> c \<le> 57"
proof (induction n arbitrary: c rule: str_nat.induct)
  case (1 n)
  show ?case
  proof (cases "n < 10")
    case True
    with "1.prems" show ?thesis by (simp add: str_nat.simps[of n])
  next
    case False
    with "1.prems" have "c \<in> set (str_nat (n div 10)) \<or> c = 48 + n mod 10"
      by (auto simp: str_nat.simps[of n])
    then show ?thesis
    proof
      assume "c \<in> set (str_nat (n div 10))"
      with "1.IH"[OF False] show ?thesis .
    next
      assume "c = 48 + n mod 10"
      then show ?thesis by simp
    qed
  qed
qed

lemma str_nat_not_empty: "str_nat n \<noteq> []"
  by (simp add: str_nat.simps[of n])

lemma digitVal_decimal: "48 \<le> c \<Longrightarrow> c \<le> 57 \<Longrightarrow> digitVal 10 c = Some (c - 48)"
  by (simp add: digitVal_def)

lemma str_nat_value:
  "foldl (\<lambda>acc c. acc * 10 + (case digitVal 10 c of None \<Rightarrow> 0 | Some d \<Rightarrow> d)) 0 (str_nat n) = n"
proof (induction n rule: str_nat.induct)
  case (1 n)
  show ?case
  proof (cases "n < 10")
    case True
    then show ?thesis by (simp add: str_nat.simps[of n] digitVal_def)
  next
    case False
    have "digitVal 10 (48 + n mod 10) = Some (n mod 10)"
      by (simp add: digitVal_def)
    with False "1.IH"[OF False] show ?thesis
      by (simp add: str_nat.simps[of n])
  qed
qed

lemma parseInt_digits:
  assumes "\<forall>x \<in> set (c # t). 48 \<le> x \<and> x \<le> 57"
  shows "js_parseInt (Some (c # t)) =
    Num (int (foldl (\<lambda>acc c. acc * 10 + (case digitVal 10 c of None \<Rightarrow> 0 | Some d \<Rightarrow> d)) 0 (c # t)))"
proof -
  from assms have c: "48 \<le> c" "c \<le> 57" by auto
  then have nsp: "\<not> isSpace c" by (auto simp: isSpace_def)
  have tw: "takeWhile (\<lambda>c. digitVal 10 c \<noteq> None) (c # t) = c # t"
    using assms by (auto simp: takeWhile_eq_all_conv digitVal_decimal)
  have nohex: "\<not> (case c # t of c # d # _ \<Rightarrow> c = 48 \<and> (d = 120 \<or> d = 88) | _ \<Rightarrow> False)"
  proof (cases t)
    case Nil
    then show ?thesis by simp
  next
    case (Cons d t')
    with assms have "48 \<le> d \<and> d \<le> 57" by auto
    with Cons show ?thesis by auto
  qed
  have S: "dropWhile isSpace (c # t) = c # t" using nsp by simp
  have S1: "(case c # t of [] \<Rightarrow> [] | c' # t' \<Rightarrow> if c' = 43 \<or> c' = 45 then t' else c # t) = c # t"
    using c by auto
  have ng: "\<not> (case c # t of [] \<Rightarrow> False | c' # _ \<Rightarrow> c' = 45)" using c by auto
  have "js_parseInt (Some (c # t)) =
     (let Z = takeWhile (\<lambda>c. digitVal 10 c \<noteq> None) (c # t);
          mathInt = foldl (\<lambda>acc c. acc * 10 + (case digitVal 10 c of None \<Rightarrow> 0 | Some d \<Rightarrow> d)) 0 Z
      in if Z = [] then NaN else Num (int mathInt))"
    unfolding js_parseInt_def option.case S Let_def S1 using nohex ng by simp
  then show ?thesis unfolding tw by (simp add: Let_def)
qed

lemma parseInt_decimal: "js_parseInt (Some (str_nat n)) = Num (int n)"
proof -
  obtain c t where S: "str_nat n = c # t" using str_nat_not_empty[of n] by (cases "str_nat n") auto
  have "\<forall>x \<in> set (c # t). 48 \<le> x \<and> x \<le> 57" using str_nat_digits[of _ n] S by auto
  from parseInt_digits[OF this] show ?thesis
    unfolding S[symmetric] by (simp add: str_nat_value)
qed

text \<open>
  C8, as amended. The optional integer of getUnreadEmails (\<^verbatim>\<open>args[0]\<close>) and of
  searchEmails (\<^verbatim>\<open>args[1]\<close>) is read by parseInt, and \<^verbatim>\<open>|| 10\<close> replaces every falsy
  Number: the default 10 is passed when the argument does not parse (NaN) and also when
  it parses to zero; an argument that parses to a non-zero integer is passed as that
  integer. A missing argument does not parse, and the decimal text of \<open>k\<close> parses to
  \<open>k\<close>.
\<close>

theorem maxResults_default_on_failure_or_zero:
  "((js_parseInt (Some arg0) = NaN \<or> js_parseInt (Some arg0) = Num 0) \<longrightarrow>
      dispatch X (js ''getUnreadEmails'') arg0 rest m =
        (case with_gmail (GmailTools_getUnreadEmails X (Num 10)) m of (r, m') \<Rightarrow> (Inr r, m')))
   \<and> (js_parseInt (Some arg0) = Num n \<and> n \<noteq> 0 \<longrightarrow>
      dispatch X (js ''getUnreadEmails'') arg0 rest m =
        (case with_gmail (GmailTools_getUnreadEmails X (Num n)) m of (r, m') \<Rightarrow> (Inr r, m')))
   \<and> ((js_parseInt (arg1 rest) = NaN \<or> js_parseInt (arg1 rest) = Num 0) \<longrightarrow>
      dispatch X (js ''searchEmails'') arg0 rest m =
        (case with_gmail (GmailTools_searchEmails X arg0 (Num 10)) m of (r, m') \<Rightarrow> (Inr r, m')))
   \<and> (js_parseInt (arg1 rest) = Num n \<and> n \<noteq> 0 \<longrightarrow>
      dispatch X (js ''searchEmails'') arg0 rest m =
        (case with_gmail (GmailTools_searchEmails X arg0 (Num n)) m of (r, m') \<Rightarrow> (Inr r, m')))
   \<and> js_parseInt None = NaN
   \<and> js_parseInt (Some (str_nat k)) = Num (int k)"
proof (intro conjI impI)
  assume "js_parseInt (Some arg0) = NaN \<or> js_parseInt (Some arg0) = Num 0"
  then show "dispatch X (js ''getUnreadEmails'') arg0 rest m =
        (case with_gmail (GmailTools_getUnreadEmails X (Num 10)) m of (r, m') \<Rightarrow> (Inr r, m'))"
    by (auto simp: dispatch_def js_def truthy_num_def)
next
  assume "js_parseInt (Some arg0) = Num n \<and> n \<noteq> 0"
  then show "dispatch X (js ''getUnreadEmails'') arg0 rest m =
        (case with_gmail (GmailTools_getUnreadEmails X (Num n)) m of (r, m') \<Rightarrow> (Inr r, m'))"
    by (auto simp: dispatch_def js_def truthy_num_def)
next
  assume "js_parseInt (arg1 rest) = NaN \<or> js_parseInt (arg1 rest) = Num 0"
  then show "dispatch X (js ''searchEmails'') arg0 rest m =
        (case with_gmail (GmailTools_searchEmails X arg0 (Num 10)) m of (r, m') \<Rightarrow> (Inr r, m'))"
    by (auto simp: dispatch_def js_def truthy_num_def)
next
  assume "js_parseInt (arg1 rest) = Num n \<and> n \<noteq> 0"
  then show "dispatch X (js ''searchEmails'') arg0 rest m =
        (case with_gmail (GmailTools_searchEmails X arg0 (Num n)) m of (r, m') \<Rightarrow> (Inr r, m'))"
    by (auto simp: dispatch_def js_def truthy_num_def)
next
  show "js_parseInt None = NaN"
    by (simp add: js_parseInt_def js_def isSpace_def digitVal_def)
next
  show "js_parseInt (Some (str_nat k)) = Num (int k)"
    by (rule parseInt_decimal)
qed

lemma demo_unread_trace:
  "trace (snd (with_gmail (GmailTools_getUnreadEmails demo_externals k) demo_gmail_machine)) =
     [MailUnread k, MailList \<lparr>opt_query = Some (js ''is:unread''), opt_maxResults = Some k\<rparr>]"
  by (simp add: with_gmail_def GmailTools_getUnreadEmails_def GmailTools_listEmails_def
      GmailTools_ensureAuthenticated_def GmailTools_authenticate_def invoke_def
      demo_gmail_machine_def demo_externals_def CodingAgent_new_def new_array_def
      empty_heap_def Let_def split: prod.splits)

text \<open>
  C8, as stated, fails for the argument \<^verbatim>\<open>0\<close>: it parses to the integer 0, and the
  mailbox is asked for 10 messages.
\<close>

theorem maxResults_zero_counterexample:
  "js_parseInt (Some (js ''0'')) = Num 0
   \<and> trace (snd (dispatch demo_externals (js ''getUnreadEmails'') (js ''0'') [] demo_gmail_machine)) =
       [MailUnread (Num 10),
        MailList \<lparr>opt_query = Some (js ''is:unread''), opt_maxResults = Some (Num 10)\<rparr>]"
proof -
  have p: "js_parseInt (Some (js ''0'')) = Num 0"
    by (simp add: js_parseInt_def js_def isSpace_def digitVal_def)
  have "dispatch demo_externals (js ''getUnreadEmails'') (js ''0'') [] demo_gmail_machine =
        (case with_gmail (GmailTools_getUnreadEmails demo_externals (Num 10)) demo_gmail_machine
         of (r, m') \<Rightarrow> (Inr r, m'))"
    using p by (simp add: dispatch_def truthy_num_def Let_def js_def)
  then show ?thesis using p demo_unread_trace[of "Num 10"]
    by (simp add: case_prod_beta)
qed

theorem maxResults_default_on_failure_or_zero_witness:
  "js_parseInt (Some (js ''25'')) = Num 25
   \<and> trace (snd (dispatch demo_externals (js ''getUnreadEmails'') (js ''25'') [] demo_gmail_machine)) =
       [MailUnread (Num 25),
        MailList \<lparr>opt_query = Some (js ''is:unread''), opt_maxResults = Some (Num 25)\<rparr>]
   \<and> js_parseInt (Some (js ''many'')) = NaN
   \<and> trace (snd (dispatch demo_externals (js ''getUnreadEmails'') (js ''many'') [] demo_gmail_machine)) =
       [MailUnread (Num 10),
        MailList \<lparr>opt_query = Some (js ''is:unread''), opt_maxResults = Some (Num 10)\<rparr>]"
proof -
  have p: "js_parseInt (Some (js ''25'')) = Num 25"
    by (simp add: js_parseInt_def js_def isSpace_def digitVal_def)
  have q: "js_parseInt (Some (js ''many'')) = NaN"
    by (simp add: js_parseInt_def js_def isSpace_def digitVal_def)
  from maxResults_default_on_failure_or_zero[of "js ''25''" demo_externals "[]" demo_gmail_machine 25] p
  have a: "dispatch demo_externals (js ''getUnreadEmails'') (js ''25'') [] demo_gmail_machine =
        (case with_gmail (GmailTools_getUnreadEmails demo_externals (Num 25)) demo_gmail_machine
         of (r, m') \<Rightarrow> (Inr r, m'))" by simp
  from maxResults_default_on_failure_or_zero[of "js ''many''" demo_externals "[]" demo_gmail_machine] q
  have b: "dispatch demo_externals (js ''getUnreadEmails'') (js ''many'') [] demo_gmail_machine =
        (case with_gmail (GmailTools_getUnreadEmails demo_externals (Num 10)) demo_gmail_machine
         of (r, m') \<Rightarrow> (Inr r, m'))" by simp
  show ?thesis
    unfolding a b using p q demo_unread_trace[of "Num 25"] demo_unread_trace[of "Num 10"]
    by (simp add: case_prod_beta)
qed

section \<open>The invariant of a Result\<close>

lemma inv_readFile: "Result_invariant (fst (FileTools_readFile X p m))"
  by (simp add: FileTools_readFile_def Result_invariant_def Let_def split: sum.splits)

lemma inv_writeFile: "Result_invariant (fst (FileTools_writeFile X p c m))"
  by (simp add: FileTools_writeFile_def Result_invariant_def Let_def
      split: prod.splits option.splits)

lemma inv_editFile: "Result_invariant (fst (FileTools_editFile X p c m))"
  by (simp add: FileTools_editFile_def Result_invariant_def Let_def
      split: prod.splits option.splits)

lemma inv_listFiles: "Result_invariant (fst (FileTools_listFiles X d m))"
  by (simp add: FileTools_listFiles_def Result_invariant_def Let_def split: sum.splits)

lemma inv_executeCommand:
  "CommandTools_executeCommand X cmd m = (Inr r, m') \<Longrightarrow> Result_invariant r"
  by (auto simp: CommandTools_executeCommand_def Result_invariant_def Let_def
      split: prod.splits exec_outcome.splits if_splits)

lemma inv_ensureAuthenticated:
  "Result_invariant (fst (GmailTools_ensureAuthenticated X g m))"
  by (simp add: GmailTools_ensureAuthenticated_def GmailTools_authenticate_def
      Result_invariant_def Let_def split: prod.splits option.splits)

lemma inv_getEmail: "Result_invariant (fst (GmailTools_getEmail X i g m))"
  using inv_ensureAuthenticated[of X g "invoke (MailGet i) m"]
  by (auto simp: GmailTools_getEmail_def Result_invariant_def Let_def
      split: prod.splits sum.splits)

lemma inv_listEmails: "Result_invariant (fst (GmailTools_listEmails X opts g m))"
  using inv_ensureAuthenticated[of X g "invoke (MailList opts) m"]
  by (auto simp: GmailTools_listEmails_def Result_invariant_def Let_def
      split: prod.splits sum.splits)

lemma inv_sendEmail: "Result_invariant (fst (GmailTools_sendEmail X d g m))"
  using inv_ensureAuthenticated[of X g "invoke (MailSend d) m"]
  by (auto simp: GmailTools_sendEmail_def Result_invariant_def Let_def
      split: prod.splits sum.splits)

lemma inv_createDraft: "Result_invariant (fst (GmailTools_createDraft X d g m))"
  using inv_ensureAuthenticated[of X g "invoke (MailDraft d) m"]
  by (auto simp: GmailTools_createDraft_def Result_invariant_def Let_def
      split: prod.splits sum.splits)

lemma inv_searchEmails: "Result_invariant (fst (GmailTools_searchEmails X q n g m))"
  by (simp add: GmailTools_searchEmails_def inv_listEmails)

lemma inv_getUnreadEmails: "Result_invariant (fst (GmailTools_getUnreadEmails X n g m))"
  by (simp add: GmailTools_getUnreadEmails_def inv_listEmails)

lemma inv_markAsRead: "Result_invariant (fst (GmailTools_markAsRead X i g m))"
  using inv_ensureAuthenticated[of X g "invoke (MailMarkRead i) m"]
  by (auto simp: GmailTools_markAsRead_def Result_invariant_def Let_def
      split: prod.splits option.splits)

lemma inv_deleteEmail: "Result_invariant (fst (GmailTools_deleteEmail X i g m))"
  using inv_ensureAuthenticated[of X g "invoke (MailDelete i) m"]
  by (auto simp: GmailTools_deleteEmail_def Result_invariant_def Let_def
      split: prod.splits option.splits)

lemma inv_getEmailContext: "Result_invariant (fst (GmailTools_getEmailContext X i g m))"
  using inv_getEmail[of X i g "invoke (MailContext i) m"]
  by (auto simp: GmailTools_getEmailContext_def Result_invariant_def Let_def
      split: prod.splits option.splits payload.splits)

lemma inv_analyzeEmailThread: "Result_invariant (fst (GmailTools_analyzeEmailThread X i g m))"
  using inv_ensureAuthenticated[of X g "invoke (MailThread i) m"]
  by (auto simp: GmailTools_analyzeEmailThread_def Result_invariant_def Let_def
      split: prod.splits sum.splits)

lemma inv_with_gmail:
  assumes "\<And>g. Result_invariant (fst (method g m))"
  shows "Result_invariant (fst (with_gmail method m))"
proof (cases "gmailTools m")
  case None
  then show ?thesis
    by (simp add: with_gmail_def gmail_not_available_def Result_invariant_def)
next
  case (Some g)
  with assms[of g] show ?thesis
    by (simp add: with_gmail_def case_prod_beta)
qed

lemma inv_dispatch_fst:
  "case fst (dispatch X funcName arg0 rest m) of Inl e \<Rightarrow> True | Inr r \<Rightarrow> Result_invariant r"
proof -
  note wg = inv_with_gmail[of _ m]
  have g1: "Result_invariant (fst (with_gmail (GmailTools_listEmails X opts) m))" for opts
    by (rule wg) (rule inv_listEmails)
  have g2: "Result_invariant (fst (with_gmail (GmailTools_getEmail X i) m))" for i
    by (rule wg) (rule inv_getEmail)
  have g3: "Result_invariant (fst (with_gmail (GmailTools_searchEmails X q n) m))" for q n
    by (rule wg) (rule inv_searchEmails)
  have g4: "Result_invariant (fst (with_gmail (GmailTools_getUnreadEmails X n) m))" for n
    by (rule wg) (rule inv_getUnreadEmails)
  have g5: "Result_invariant (fst (with_gmail (GmailTools_markAsRead X i) m))" for i
    by (rule wg) (rule inv_markAsRead)
  have g6: "Result_invariant (fst (with_gmail (GmailTools_deleteEmail X i) m))" for i
    by (rule wg) (rule inv_deleteEmail)
  have g7: "Result_invariant (fst (with_gmail (GmailTools_getEmailContext X i) m))" for i
    by (rule wg) (rule inv_getEmailContext)
  have g8: "Result_invariant (fst (with_gmail (GmailTools_analyzeEmailThread X i) m))" for i
    by (rule wg) (rule inv_analyzeEmailThread)
  have blocked: "Result_invariant \<lparr>success = False, data = None,
        error = Some (js ''Command blocked for safety''), message = js ''Command blocked: '' @ arg0\<rparr>"
    by (simp add: Result_invariant_def)
  have unknown: "Result_invariant \<lparr>success = False, data = None,
        error = Some (js ''Unknown tool''), message = js ''Unknown tool: '' @ funcName\<rparr>"
    by (simp add: Result_invariant_def)
  have ex: "case fst (CommandTools_executeCommand X arg0 m) of Inl e \<Rightarrow> True
            | Inr r \<Rightarrow> Result_invariant r"
    using inv_executeCommand[of X arg0 m]
    by (cases "CommandTools_executeCommand X arg0 m") (auto split: sum.splits)
  show ?thesis
    unfolding dispatch_def Let_def
    by (simp add: case_prod_beta inv_readFile inv_writeFile inv_editFile inv_listFiles
        g1 g2 g3 g4 g5 g6 g7 g8 blocked unknown ex)
qed

lemma inv_dispatch:
  assumes "dispatch X funcName arg0 rest m = (Inr r, m')"
  shows "Result_invariant r"
  using inv_dispatch_fst[of X funcName arg0 rest m] assms by simp

lemma inv_run_toolCall: "r \<in> set (fst (run_toolCall X toolCall m)) \<Longrightarrow> Result_invariant r"
proof -
  assume r: "r \<in> set (fst (run_toolCall X toolCall m))"
  show ?thesis
  proof (cases "match_call toolCall")
    case None
    with r show ?thesis by (simp add: run_toolCall_def)
  next
    case (Some fa)
    obtain funcName argsStr where fa: "fa = (funcName, argsStr)" by (cases fa) auto
    show ?thesis
    proof (cases "parse_args argsStr")
      case Nil
      with r Some fa show ?thesis by (simp add: run_toolCall_def)
    next
      case (Cons arg0 rest)
      obtain out m' where d: "dispatch X funcName arg0 rest m = (out, m')"
        by (cases "dispatch X funcName arg0 rest m") auto
      show ?thesis
      proof (cases out)
        case (Inl e)
        with r Some fa Cons d show ?thesis
          by (simp add: run_toolCall_def Result_invariant_def)
      next
        case (Inr res)
        with r Some fa Cons d have "r = res" by (simp add: run_toolCall_def)
        with inv_dispatch[OF d[unfolded Inr]] show ?thesis by simp
      qed
    qed
  qed
qed

lemma inv_run_toolCalls:
  "r \<in> set (fst (run_toolCalls X calls m)) \<Longrightarrow> Result_invariant r"
proof (induction calls arbitrary: m)
  case Nil
  then show ?case by simp
next
  case (Cons toolCall calls)
  obtain rs m1 where a: "run_toolCall X toolCall m = (rs, m1)"
    by (cases "run_toolCall X toolCall m") auto
  obtain later m2 where b: "run_toolCalls X calls m1 = (later, m2)"
    by (cases "run_toolCalls X calls m1") auto
  from Cons.prems a b have "r \<in> set rs \<or> r \<in> set later" by simp
  then show ?case
  proof
    assume "r \<in> set rs"
    with inv_run_toolCall[of r X toolCall m] a show ?thesis by simp
  next
    assume "r \<in> set later"
    with Cons.IH[of m1] b show ?thesis by simp
  qed
qed

text \<open>
  C5. Every Result of the core operations satisfies the invariant of a Result: the four
  operations of FileTools, executeCommand of CommandTools and of the agent (when their
  promise resolves), the switch of the dispatcher (when it returns), and every Result
  the dispatch loop collects, the ones its \<^verbatim>\<open>catch\<close> builds included. A Result with an
  error is never a success, and the message is always there.
\<close>

theorem results_satisfy_invariant:
  "Result_invariant (fst (FileTools_readFile X filePath m))
   \<and> Result_invariant (fst (FileTools_writeFile X filePath c m))
   \<and> Result_invariant (fst (FileTools_editFile X filePath c m))
   \<and> Result_invariant (fst (FileTools_listFiles X directory m))
   \<and> (case fst (CommandTools_executeCommand X cmd m) of
         Inl e \<Rightarrow> True | Inr r \<Rightarrow> Result_invariant r)
   \<and> (case fst (agent_executeCommand X cmd m) of
         Inl e \<Rightarrow> True | Inr r \<Rightarrow> Result_invariant r)
   \<and> (case fst (dispatch X funcName arg0 rest m) of
         Inl e \<Rightarrow> True | Inr r \<Rightarrow> Result_invariant r)
   \<and> (\<forall>r \<in> set (fst (parseAndExecuteTools X response m)). Result_invariant r)"
proof (intro conjI)
  show "case fst (CommandTools_executeCommand X cmd m) of
         Inl e \<Rightarrow> True | Inr r \<Rightarrow> Result_invariant r"
    using inv_executeCommand[of X cmd m]
    by (cases "CommandTools_executeCommand X cmd m") (auto split: sum.splits)
  then show "case fst (agent_executeCommand X cmd m) of
         Inl e \<Rightarrow> True | Inr r \<Rightarrow> Result_invariant r"
    by (simp add: agent_executeCommand_def Result_invariant_def)
  show "\<forall>r \<in> set (fst (parseAndExecuteTools X response m)). Result_invariant r"
    unfolding parseAndExecuteTools_def using inv_run_toolCalls by blast
qed (simp_all add: inv_readFile inv_writeFile inv_editFile inv_listFiles inv_dispatch_fst)

theorem results_satisfy_invariant_witness:
  "error (fst (FileTools_readFile demo_externals (js ''missing.txt'') demo_machine))
      = Some (js ''File not found: missing.txt'')
   \<and> \<not> success (fst (FileTools_readFile demo_externals (js ''missing.txt'') demo_machine))
   \<and> message (fst (FileTools_readFile demo_externals (js ''missing.txt'') demo_machine)) \<noteq> []
   \<and> \<lparr>success = False, data = None, error = Some (js ''Unknown tool''),
        message = js ''Unknown tool: sendEmail''\<rparr>
        \<in> set (fst (parseAndExecuteTools demo_externals (js ''sendEmail(draft)'') demo_machine))
   \<and> Result_invariant \<lparr>success = False, data = None, error = Some (js ''Unknown tool''),
        message = js ''Unknown tool: sendEmail''\<rparr>"
proof -
  have e: "error (fst (FileTools_readFile demo_externals (js ''missing.txt'') demo_machine))
      = Some (js ''File not found: missing.txt'')"
    by (simp add: FileTools_readFile_def demo_externals_def Let_def js_def)
  note t = results_satisfy_invariant[of demo_externals "js ''missing.txt''" demo_machine
      _ _ _ _ _ _ "js ''sendEmail(draft)''"]
  from t have i: "Result_invariant
      (fst (FileTools_readFile demo_externals (js ''missing.txt'') demo_machine))"
    by blast
  have tc: "toolCalls (js ''sendEmail(draft)'') = [js ''sendEmail(draft)'']"
    by (simp add: toolNames_def js_def toolCalls_def match_args_def isWord_def isSpace_def)
  have mc: "match_call (js ''sendEmail(draft)'') = Some (js ''sendEmail'', js ''draft'')"
    by (simp add: js_def match_call_at_def match_args_def isWord_def isSpace_def)
  have pa: "parse_args (js ''draft'') = [js ''draft'']"
    by (simp add: js_def parse_args_def strip_quotes_def js_trim_def isSpace_def)
  have r: "\<lparr>success = False, data = None, error = Some (js ''Unknown tool''),
        message = js ''Unknown tool: sendEmail''\<rparr>
        \<in> set (fst (parseAndExecuteTools demo_externals (js ''sendEmail(draft)'') demo_machine))"
    unfolding parseAndExecuteTools_def tc
    by (simp add: run_toolCall_def mc pa) (simp add: dispatch_def js_def)
  from t r have j: "Result_invariant \<lparr>success = False, data = None,
        error = Some (js ''Unknown tool''), message = js ''Unknown tool: sendEmail''\<rparr>"
    by blast
  from e i r j show ?thesis by (simp add: Result_invariant_def)
qed

section \<open>Exceptions in the dispatch loop\<close>

lemma js_split_not_empty: "js_split sep s \<noteq> []"
  by (induction s) (auto split: list.splits)

lemma parse_args_not_empty: "parse_args argsStr \<noteq> []"
  by (simp add: parse_args_def js_split_not_empty)

lemma run_toolCall_one:
  assumes "n \<in> set toolNames" "list_all isSpace ws" "as \<noteq> []" "41 \<notin> set as"
  shows "length (fst (run_toolCall X (n @ ws @ [40] @ as @ [41]) m)) = 1"
proof -
  from toolNames_word[OF assms(1)] have "n \<noteq> []" "list_all isWord n" by auto
  from match_call_recovers[OF this assms(2,3,4)]
  have mc: "match_call (n @ ws @ 40 # as @ [41]) = Some (n, as)" by simp
  obtain arg0 rest where pa: "parse_args as = arg0 # rest"
    using parse_args_not_empty[of as] by (cases "parse_args as") auto
  show ?thesis
    by (cases "dispatch X n arg0 rest m") (auto simp: run_toolCall_def mc pa split: sum.splits)
qed

lemma run_toolCalls_length:
  assumes "\<forall>tc \<in> set calls. \<exists>n ws as. n \<in> set toolNames \<and> tc = n @ ws @ [40] @ as @ [41]
        \<and> list_all isSpace ws \<and> as \<noteq> [] \<and> 41 \<notin> set as"
  shows "length (fst (run_toolCalls X calls m)) = length calls"
  using assms
proof (induction calls arbitrary: m)
  case Nil
  then show ?case by simp
next
  case (Cons tc calls)
  then obtain n ws as where tc: "n \<in> set toolNames" "tc = n @ ws @ [40] @ as @ [41]"
        "list_all isSpace ws" "as \<noteq> []" "41 \<notin> set as" by auto
  obtain rs m1 where a: "run_toolCall X tc m = (rs, m1)"
    by (cases "run_toolCall X tc m") auto
  obtain later m2 where b: "run_toolCalls X calls m1 = (later, m2)"
    by (cases "run_toolCalls X calls m1") auto
  from run_toolCall_one[OF tc(1,3,4,5), of X m] tc(2) a have "length rs = 1" by simp
  moreover from Cons.IH[of m1] Cons.prems b have "length later = length calls" by simp
  ultimately show ?case using a b by simp
qed

text \<open>
  C4. The dispatch loop returns a list of Results, never an exception, and the list has
  exactly one Result for each extracted call. When the switch throws an Error for a
  call, the \<^verbatim>\<open>catch\<close> of the loop produces the Result with success false and the message
  of that Error as its error; a thrown value that is not an Error has no message, and
  the error is then "Unknown error". The capability that can throw into the switch is
  the Process capability: what \<^verbatim>\<open>exec\<close> throws, executeCommand throws. The File and the
  Mailbox capability catch what their own calls throw and return the same kind of
  Result, as the last part shows for a file that cannot be read. (The model takes
  every capability call to end; a command that never ends is outside of it.)
\<close>

theorem dispatch_catches_exceptions:
  "length (fst (parseAndExecuteTools X response m)) = length (toolCalls response)
   \<and> length (extractCalls response) = length (toolCalls response)
   \<and> (match_call toolCall = Some (funcName, argsStr) \<and> parse_args argsStr = arg0 # rest
        \<and> dispatch X funcName arg0 rest m = (Inl (Error msg), m') \<longrightarrow>
      run_toolCall X toolCall m =
        ([\<lparr>success = False, data = None, error = Some msg,
           message = js ''Failed to execute tool: '' @ toolCall\<rparr>], m'))
   \<and> (match_call toolCall = Some (funcName, argsStr) \<and> parse_args argsStr = arg0 # rest
        \<and> dispatch X funcName arg0 rest m = (Inl NonError, m') \<longrightarrow>
      run_toolCall X toolCall m =
        ([\<lparr>success = False, data = None, error = Some (js ''Unknown error''),
           message = js ''Failed to execute tool: '' @ toolCall\<rparr>], m'))
   \<and> (isSafeCommand (toLowerCase X) cmd
        \<and> child_exec X (world m) (commandTools_currentDirectory m) cmd = (Throws e, w) \<longrightarrow>
      dispatch X (js ''executeCommand'') cmd rest m =
        (Inl e, (invoke (ProcessExec cmd) m)\<lparr>world := w\<rparr>))
   \<and> (fs_existsSync X (world m) (path_resolve X (fileTools_currentDirectory m) filePath)
        \<and> fs_readFileSync X (world m) (path_resolve X (fileTools_currentDirectory m) filePath)
            = Inl (Error msg) \<longrightarrow>
      dispatch X (js ''readFile'') filePath rest m =
        (Inr \<lparr>success = False, data = None, error = Some msg,
              message = js ''Failed to read file: '' @ filePath\<rparr>,
         invoke (FileRead filePath) m))"
proof (intro conjI impI)
  have shape: "\<forall>tc \<in> set (toolCalls response). \<exists>n ws as. n \<in> set toolNames
        \<and> tc = n @ ws @ [40] @ as @ [41] \<and> list_all isSpace ws \<and> as \<noteq> [] \<and> 41 \<notin> set as"
    unfolding toolCalls_def using scan_shape by blast
  from run_toolCalls_length[OF shape]
  show "length (fst (parseAndExecuteTools X response m)) = length (toolCalls response)"
    by (simp add: parseAndExecuteTools_def)
  from extractCalls_matches[of response]
  show "length (extractCalls response) = length (toolCalls response)"
    by (simp add: list_all2_lengthD)
next
  assume "match_call toolCall = Some (funcName, argsStr) \<and> parse_args argsStr = arg0 # rest
        \<and> dispatch X funcName arg0 rest m = (Inl (Error msg), m')"
  then show "run_toolCall X toolCall m =
        ([\<lparr>success = False, data = None, error = Some msg,
           message = js ''Failed to execute tool: '' @ toolCall\<rparr>], m')"
    by (simp add: run_toolCall_def caught_message_def)
next
  assume "match_call toolCall = Some (funcName, argsStr) \<and> parse_args argsStr = arg0 # rest
        \<and> dispatch X funcName arg0 rest m = (Inl NonError, m')"
  then show "run_toolCall X toolCall m =
        ([\<lparr>success = False, data = None, error = Some (js ''Unknown error''),
           message = js ''Failed to execute tool: '' @ toolCall\<rparr>], m')"
    by (simp add: run_toolCall_def caught_message_def)
next
  assume "isSafeCommand (toLowerCase X) cmd
        \<and> child_exec X (world m) (commandTools_currentDirectory m) cmd = (Throws e, w)"
  then show "dispatch X (js ''executeCommand'') cmd rest m =
        (Inl e, (invoke (ProcessExec cmd) m)\<lparr>world := w\<rparr>)"
    by (simp add: dispatch_def CommandTools_executeCommand_def invoke_def js_def)
next
  assume "fs_existsSync X (world m) (path_resolve X (fileTools_currentDirectory m) filePath)
        \<and> fs_readFileSync X (world m) (path_resolve X (fileTools_currentDirectory m) filePath)
            = Inl (Error msg)"
  then show "dispatch X (js ''readFile'') filePath rest m =
        (Inr \<lparr>success = False, data = None, error = Some msg,
              message = js ''Failed to read file: '' @ filePath\<rparr>,
         invoke (FileRead filePath) m)"
    by (simp add: dispatch_def FileTools_readFile_def invoke_def caught_message_def)
qed

theorem dispatch_catches_exceptions_witness:
  "match_call (js ''executeCommand(ls)'') = Some (js ''executeCommand'', js ''ls'')
   \<and> parse_args (js ''ls'') = [js ''ls'']
   \<and> isSafeCommand (toLowerCase throwing_externals) (js ''ls'')
   \<and> dispatch throwing_externals (js ''executeCommand'') (js ''ls'') [] demo_machine =
        (Inl (Error (js ''spawn E2BIG'')), invoke (ProcessExec (js ''ls'')) demo_machine)
   \<and> run_toolCall throwing_externals (js ''executeCommand(ls)'') demo_machine =
        ([\<lparr>success = False, data = None, error = Some (js ''spawn E2BIG''),
           message = js ''Failed to execute tool: executeCommand(ls)''\<rparr>],
         invoke (ProcessExec (js ''ls'')) demo_machine)
   \<and> dispatch locked_externals (js ''readFile'') (js ''a.txt'') [] demo_machine =
        (Inr \<lparr>success = False, data = None, error = Some (js ''EACCES: permission denied''),
              message = js ''Failed to read file: a.txt''\<rparr>,
         invoke (FileRead (js ''a.txt'')) demo_machine)"
proof -
  have lk: "fs_existsSync locked_externals (world demo_machine)
          (path_resolve locked_externals (fileTools_currentDirectory demo_machine) (js ''a.txt''))
        \<and> fs_readFileSync locked_externals (world demo_machine)
          (path_resolve locked_externals (fileTools_currentDirectory demo_machine) (js ''a.txt''))
            = Inl (Error (js ''EACCES: permission denied''))"
    by (simp add: locked_externals_def demo_externals_def)
  from dispatch_catches_exceptions[where X = locked_externals and m = demo_machine
      and filePath = "js ''a.txt''" and msg = "js ''EACCES: permission denied''"
      and rest = "[]"] lk
  have f0: "dispatch locked_externals (js ''readFile'') (js ''a.txt'') [] demo_machine =
        (Inr \<lparr>success = False, data = None, error = Some (js ''EACCES: permission denied''),
              message = js ''Failed to read file: '' @ js ''a.txt''\<rparr>,
         invoke (FileRead (js ''a.txt'')) demo_machine)"
    by blast
  have "js ''Failed to read file: '' @ js ''a.txt'' = js ''Failed to read file: a.txt''"
    by (simp add: js_def)
  with f0 have f: "dispatch locked_externals (js ''readFile'') (js ''a.txt'') [] demo_machine =
        (Inr \<lparr>success = False, data = None, error = Some (js ''EACCES: permission denied''),
              message = js ''Failed to read file: a.txt''\<rparr>,
         invoke (FileRead (js ''a.txt'')) demo_machine)"
    by simp
  note t = dispatch_catches_exceptions[of throwing_externals _ demo_machine
      "js ''executeCommand(ls)''" "js ''executeCommand''" "js ''ls''" "js ''ls''" "[]"
      "js ''spawn E2BIG''" "invoke (ProcessExec (js ''ls'')) demo_machine" "js ''ls''"
      "Error (js ''spawn E2BIG'')" 0]
  have mc: "match_call (js ''executeCommand(ls)'') = Some (js ''executeCommand'', js ''ls'')"
    by (simp add: js_def match_call_at_def match_args_def isWord_def isSpace_def)
  have pa: "parse_args (js ''ls'') = [js ''ls'']"
    by (simp add: js_def parse_args_def strip_quotes_def js_trim_def isSpace_def)
  have safe: "isSafeCommand (toLowerCase throwing_externals) (js ''ls'')"
    by (simp add: isSafeCommand_def dangerousCommands_def throwing_externals_def
        demo_externals_def ascii_lower_def js_def)
  have ex: "child_exec throwing_externals (world demo_machine)
        (commandTools_currentDirectory demo_machine) (js ''ls'') = (Throws (Error (js ''spawn E2BIG'')), 0)"
    by (simp add: throwing_externals_def demo_externals_def demo_machine_def
        CodingAgent_new_def new_array_def Let_def split: prod.splits)
  have w0: "(invoke (ProcessExec (js ''ls'')) demo_machine)\<lparr>world := 0\<rparr>
        = invoke (ProcessExec (js ''ls'')) demo_machine"
    by (simp add: invoke_def demo_machine_def CodingAgent_new_def new_array_def Let_def
        split: prod.splits)
  from t safe ex w0
  have d: "dispatch throwing_externals (js ''executeCommand'') (js ''ls'') [] demo_machine =
        (Inl (Error (js ''spawn E2BIG'')), invoke (ProcessExec (js ''ls'')) demo_machine)"
    by simp
  from t mc pa d
  have r: "run_toolCall throwing_externals (js ''executeCommand(ls)'') demo_machine =
        ([\<lparr>success = False, data = None, error = Some (js ''spawn E2BIG''),
           message = js ''Failed to execute tool: '' @ js ''executeCommand(ls)''\<rparr>],
         invoke (ProcessExec (js ''ls'')) demo_machine)"
    by blast
  have "js ''Failed to execute tool: '' @ js ''executeCommand(ls)''
        = js ''Failed to execute tool: executeCommand(ls)''"
    by (simp add: js_def)
  with mc pa safe d r f show ?thesis by simp
qed

section \<open>The command line and the Context\<close>

lemma js_trim_blank: "(js_trim s = []) = list_all isSpace s"
proof
  assume "list_all isSpace s"
  then have d: "dropWhile isSpace s = []" by (simp add: list_all_iff)
  show "js_trim s = []" unfolding js_trim_def d by simp
next
  assume "js_trim s = []"
  then have "dropWhile isSpace (rev (dropWhile isSpace s)) = []" by (simp add: js_trim_def)
  then have "\<forall>x \<in> set (dropWhile isSpace s). isSpace x" by (simp add: dropWhile_eq_Nil_conv)
  moreover have "dropWhile isSpace s \<noteq> [] \<Longrightarrow> \<not> isSpace (hd (dropWhile isSpace s))"
    by (rule hd_dropWhile)
  ultimately have "dropWhile isSpace s = []"
    by (cases "dropWhile isSpace s") auto
  then show "list_all isSpace s" by (simp add: list_all_iff dropWhile_eq_Nil_conv)
qed

text \<open>
  C7. For every input that is empty or consists of white space only, one round of the
  loop of the command line returns the state it started from: the conversation history
  (in the heap) has no new Message, the trace has no request to the model and no call
  of a tool, the world is the same, and the loop is ready for the next line. The guard
  is \<^verbatim>\<open>if (!input.trim()) continue\<close> in start; \<open>js_trim_blank\<close> says that it holds for
  exactly these inputs.
\<close>

theorem blank_input_is_noop:
  "list_all isSpace input \<Longrightarrow> cli_turn X input m = Some m"
  by (simp add: cli_turn_def js_trim_blank)

theorem blank_input_is_noop_witness:
  "list_all isSpace [32, 9, 32]
   \<and> cli_turn demo_externals [32, 9, 32] demo_machine = Some demo_machine
   \<and> cli_turn demo_externals [] demo_machine = Some demo_machine"
proof -
  have a: "list_all isSpace [32, 9, 32]" by (simp add: isSpace_def)
  have b: "list_all isSpace []" by simp
  from blank_input_is_noop[OF a, of demo_externals demo_machine]
    blank_input_is_noop[OF b, of demo_externals demo_machine] a
  show ?thesis by simp
qed

text \<open>
  C6. getContext copies the four fields of the Context, and three of them are
  references: the copy and the stored Context share the arrays. A push on the
  conversationHistory, the recentFiles or the recentCommands of the returned Context is
  a push on the array of the agent: read through the stored Context, the array has the
  new element.
\<close>

theorem getContext_shares_arrays:
  "messageArrays (push_message (conversationHistory (getContext m)) msg (heap m))
       (conversationHistory (agent_context m))
     = messageArrays (heap m) (conversationHistory (agent_context m)) @ [msg]
   \<and> stringArrays (push_string (recentFiles (getContext m)) s (heap m))
       (recentFiles (agent_context m))
     = stringArrays (heap m) (recentFiles (agent_context m)) @ [s]
   \<and> stringArrays (push_string (recentCommands (getContext m)) s (heap m))
       (recentCommands (agent_context m))
     = stringArrays (heap m) (recentCommands (agent_context m)) @ [s]"
  by (simp add: getContext_def push_message_def push_string_def)

section \<open>The two lists of the Context\<close>

lemma lists_kept_refl [simp]: "lists_kept m m"
  by (simp add: lists_kept_def)

lemma lists_kept_trans: "lists_kept m m1 \<Longrightarrow> lists_kept m1 m2 \<Longrightarrow> lists_kept m m2"
  by (simp add: lists_kept_def)

lemma lists_kept_invoke [simp]: "lists_kept m (invoke c m') = lists_kept m m'"
  by (simp add: lists_kept_def invoke_def)

lemma lists_kept_invoke_left [simp]: "lists_kept (invoke c m) m' = lists_kept m m'"
  by (simp add: lists_kept_def invoke_def)

lemma lists_kept_world [simp]: "lists_kept m (m'\<lparr>world := w\<rparr>) = lists_kept m m'"
  by (simp add: lists_kept_def)

lemma lists_kept_gmail [simp]: "lists_kept m (m'\<lparr>gmailTools := g\<rparr>) = lists_kept m m'"
  by (simp add: lists_kept_def)

lemma kept_readFile: "lists_kept m (snd (FileTools_readFile X p m))"
  by (simp add: FileTools_readFile_def Let_def split: sum.splits)

lemma kept_writeFile: "lists_kept m (snd (FileTools_writeFile X p c m))"
  by (simp add: FileTools_writeFile_def Let_def split: prod.splits option.splits)

lemma kept_editFile: "lists_kept m (snd (FileTools_editFile X p c m))"
  by (simp add: FileTools_editFile_def Let_def split: prod.splits option.splits)

lemma kept_listFiles: "lists_kept m (snd (FileTools_listFiles X d m))"
  by (simp add: FileTools_listFiles_def Let_def split: sum.splits)

lemma kept_executeCommand: "lists_kept m (snd (CommandTools_executeCommand X cmd m))"
  by (simp add: CommandTools_executeCommand_def Let_def split: prod.splits exec_outcome.splits)

lemma kept_ensureAuthenticated:
  "lists_kept m (snd (snd (GmailTools_ensureAuthenticated X g m)))"
  by (simp add: GmailTools_ensureAuthenticated_def GmailTools_authenticate_def Let_def
      split: prod.splits option.splits)

lemma kept_getEmail: "lists_kept m (snd (snd (GmailTools_getEmail X i g m)))"
  using kept_ensureAuthenticated[of "invoke (MailGet i) m" X g]
  by (auto simp: GmailTools_getEmail_def Let_def split: prod.splits sum.splits)

lemma kept_collect_emails: "lists_kept m (snd (snd (collect_emails X ids g m)))"
proof (induction ids arbitrary: g m)
  case Nil
  then show ?case by simp
next
  case (Cons i ids)
  obtain r g1 m1 where a: "GmailTools_getEmail X i g m = (r, g1, m1)"
    by (cases "GmailTools_getEmail X i g m") auto
  obtain es g2 m2 where b: "collect_emails X ids g1 m1 = (es, g2, m2)"
    by (cases "collect_emails X ids g1 m1") auto
  from kept_getEmail[of m X i g] a have "lists_kept m m1" by simp
  moreover from Cons.IH[of m1 g1] b have "lists_kept m1 m2" by simp
  ultimately show ?case using a b by (simp add: lists_kept_trans)
qed

lemma kept_listEmails: "lists_kept m (snd (snd (GmailTools_listEmails X opts g m)))"
proof -
  obtain a g1 m1 where e: "GmailTools_ensureAuthenticated X g (invoke (MailList opts) m) = (a, g1, m1)"
    by (cases "GmailTools_ensureAuthenticated X g (invoke (MailList opts) m)") auto
  from kept_ensureAuthenticated[of "invoke (MailList opts) m" X g] e
  have k1: "lists_kept m m1" by simp
  have k2: "lists_kept m (snd (snd (collect_emails X ids g1 (m1\<lparr>world := w\<rparr>))))" for ids w
    using kept_collect_emails[of "m1\<lparr>world := w\<rparr>" X ids g1] k1
    by (auto intro: lists_kept_trans[of m "m1\<lparr>world := w\<rparr>"])
  show ?thesis
    using k1 k2
    by (simp add: GmailTools_listEmails_def Let_def e case_prod_beta split: sum.splits)
qed

lemma kept_sendEmail: "lists_kept m (snd (snd (GmailTools_sendEmail X d g m)))"
  using kept_ensureAuthenticated[of "invoke (MailSend d) m" X g]
  by (auto simp: GmailTools_sendEmail_def Let_def split: prod.splits sum.splits)

lemma kept_createDraft: "lists_kept m (snd (snd (GmailTools_createDraft X d g m)))"
  using kept_ensureAuthenticated[of "invoke (MailDraft d) m" X g]
  by (auto simp: GmailTools_createDraft_def Let_def split: prod.splits sum.splits)

lemma kept_searchEmails: "lists_kept m (snd (snd (GmailTools_searchEmails X q n g m)))"
  using kept_listEmails[of "invoke (MailSearch q n) m" X _ g]
  by (simp add: GmailTools_searchEmails_def)

lemma kept_getUnreadEmails: "lists_kept m (snd (snd (GmailTools_getUnreadEmails X n g m)))"
  using kept_listEmails[of "invoke (MailUnread n) m" X _ g]
  by (simp add: GmailTools_getUnreadEmails_def)

lemma kept_markAsRead: "lists_kept m (snd (snd (GmailTools_markAsRead X i g m)))"
  using kept_ensureAuthenticated[of "invoke (MailMarkRead i) m" X g]
  by (auto simp: GmailTools_markAsRead_def Let_def split: prod.splits option.splits)

lemma kept_deleteEmail: "lists_kept m (snd (snd (GmailTools_deleteEmail X i g m)))"
  using kept_ensureAuthenticated[of "invoke (MailDelete i) m" X g]
  by (auto simp: GmailTools_deleteEmail_def Let_def split: prod.splits option.splits)

lemma kept_getEmailContext: "lists_kept m (snd (snd (GmailTools_getEmailContext X i g m)))"
  using kept_getEmail[of "invoke (MailContext i) m" X i g]
  by (auto simp: GmailTools_getEmailContext_def Let_def
      split: prod.splits option.splits payload.splits)

lemma kept_analyzeEmailThread:
  "lists_kept m (snd (snd (GmailTools_analyzeEmailThread X i g m)))"
  using kept_ensureAuthenticated[of "invoke (MailThread i) m" X g]
  by (auto simp: GmailTools_analyzeEmailThread_def Let_def split: prod.splits sum.splits)

lemma kept_with_gmail:
  assumes "\<And>g. lists_kept m (snd (snd (method g m)))"
  shows "lists_kept m (snd (with_gmail method m))"
proof (cases "gmailTools m")
  case None
  then show ?thesis by (simp add: with_gmail_def)
next
  case (Some g)
  with assms[of g] show ?thesis by (simp add: with_gmail_def case_prod_beta)
qed

lemma kept_gmail_cases:
  "lists_kept m (snd (with_gmail (GmailTools_listEmails X opts) m))"
  "lists_kept m (snd (with_gmail (GmailTools_getEmail X i) m))"
  "lists_kept m (snd (with_gmail (GmailTools_sendEmail X draft) m))"
  "lists_kept m (snd (with_gmail (GmailTools_createDraft X draft) m))"
  "lists_kept m (snd (with_gmail (GmailTools_searchEmails X q n) m))"
  "lists_kept m (snd (with_gmail (GmailTools_getUnreadEmails X n) m))"
  "lists_kept m (snd (with_gmail (GmailTools_markAsRead X i) m))"
  "lists_kept m (snd (with_gmail (GmailTools_deleteEmail X i) m))"
  "lists_kept m (snd (with_gmail (GmailTools_getEmailContext X i) m))"
  "lists_kept m (snd (with_gmail (GmailTools_analyzeEmailThread X i) m))"
  by (rule kept_with_gmail, rule kept_listEmails kept_getEmail kept_sendEmail kept_createDraft
      kept_searchEmails kept_getUnreadEmails kept_markAsRead kept_deleteEmail
      kept_getEmailContext kept_analyzeEmailThread)+

lemma kept_dispatch: "lists_kept m (snd (dispatch X funcName arg0 rest m))"
  unfolding dispatch_def Let_def
  by (simp add: case_prod_beta kept_readFile kept_writeFile kept_editFile kept_listFiles
      kept_executeCommand kept_gmail_cases)

lemma kept_run_toolCall: "lists_kept m (snd (run_toolCall X toolCall m))"
proof (cases "match_call toolCall")
  case None
  then show ?thesis by (simp add: run_toolCall_def)
next
  case (Some fa)
  obtain funcName argsStr where fa: "fa = (funcName, argsStr)" by (cases fa) auto
  show ?thesis
  proof (cases "parse_args argsStr")
    case Nil
    with Some fa show ?thesis by (simp add: run_toolCall_def)
  next
    case (Cons arg0 rest)
    obtain out m' where d: "dispatch X funcName arg0 rest m = (out, m')"
      by (cases "dispatch X funcName arg0 rest m") auto
    from kept_dispatch[of m X funcName arg0 rest] d have "lists_kept m m'" by simp
    with Some fa Cons d show ?thesis
      by (cases out) (simp_all add: run_toolCall_def)
  qed
qed

lemma kept_run_toolCalls: "lists_kept m (snd (run_toolCalls X calls m))"
proof (induction calls arbitrary: m)
  case Nil
  then show ?case by simp
next
  case (Cons toolCall calls)
  obtain rs m1 where a: "run_toolCall X toolCall m = (rs, m1)"
    by (cases "run_toolCall X toolCall m") auto
  obtain later m2 where b: "run_toolCalls X calls m1 = (later, m2)"
    by (cases "run_toolCalls X calls m1") auto
  from kept_run_toolCall[of m X toolCall] a have "lists_kept m m1" by simp
  moreover from Cons.IH[of m1] b have "lists_kept m1 m2" by simp
  ultimately show ?case using a b by (simp add: lists_kept_trans)
qed

lemma kept_parseAndExecuteTools: "lists_kept m (snd (parseAndExecuteTools X response m))"
  by (simp add: parseAndExecuteTools_def kept_run_toolCalls)

lemma kept_generateSystemPrompt: "lists_kept m (snd (generateSystemPrompt X m))"
  using kept_listFiles[of m X "js ''.''"]
  by (simp add: generateSystemPrompt_def Let_def case_prod_beta)

lemma kept_callOpenAI: "lists_kept m (snd (callOpenAI X messages m))"
  by (simp add: callOpenAI_def Let_def case_prod_beta)

lemma lists_kept_push [simp]:
  "lists_kept m (m'\<lparr>world := w, heap := push_message r msg (heap m')\<rparr>) = lists_kept m m'"
  by (simp add: lists_kept_def push_message_def)

lemma kept_processMessage: "lists_kept m (snd (processMessage X userMessage m))"
proof -
  obtain t1 w1 where n1: "now X (world m) = (t1, w1)" by (cases "now X (world m)") auto
  define m1 where "m1 = m\<lparr>world := w1,
      heap := push_message (conversationHistory (agent_context m))
                \<lparr>role = User, content = userMessage, timestamp = t1\<rparr> (heap m)\<rparr>"
  obtain systemPrompt m2 where g: "generateSystemPrompt X m1 = (systemPrompt, m2)"
    by (cases "generateSystemPrompt X m1") auto
  define messages where "messages = (System, systemPrompt)
      # map (\<lambda>msg. (role msg, content msg))
          (slice_last 10 (messageArrays (heap m2) (conversationHistory (agent_context m2))))"
  obtain aiResponse m3 where c: "callOpenAI X messages m2 = (aiResponse, m3)"
    by (cases "callOpenAI X messages m2") auto
  obtain toolResults m4 where p: "parseAndExecuteTools X aiResponse m3 = (toolResults, m4)"
    by (cases "parseAndExecuteTools X aiResponse m3") auto
  obtain t2 w2 where n2: "now X (world m4) = (t2, w2)" by (cases "now X (world m4)") auto
  have k1: "lists_kept m m1" by (simp add: m1_def)
  from kept_generateSystemPrompt[of m1 X] g have k2: "lists_kept m1 m2" by simp
  from kept_callOpenAI[of m2 X messages] c have k3: "lists_kept m2 m3" by simp
  from kept_parseAndExecuteTools[of m3 X aiResponse] p have k4: "lists_kept m3 m4" by simp
  from k1 k2 k3 k4 have k: "lists_kept m m4" by (blast intro: lists_kept_trans)
  have "snd (processMessage X userMessage m) =
      m4\<lparr>world := w2,
         heap := push_message (conversationHistory (agent_context m4))
           \<lparr>role = Assistant,
            content = aiResponse @ (if length toolResults > 0
               then [10, 10] @ js ''Tool Results:'' @ [10] @ format_results toolResults
               else []),
            timestamp = t2\<rparr> (heap m4)\<rparr>"
    unfolding processMessage_def n1 Let_def
    by (simp add: m1_def[symmetric] g messages_def[symmetric] c p n2)
  with k show ?thesis by simp
qed

lemma kept_agent_methods:
  "lists_kept m (snd (agent_readFile X p m))"
  "lists_kept m (snd (agent_writeFile X p c m))"
  "lists_kept m (snd (agent_editFile X p c m))"
  "lists_kept m (snd (agent_executeCommand X cmd m))"
  "lists_kept m (snd (agent_listFiles X d m))"
  "lists_kept m (snd (agent_listEmails X opts m))"
  "lists_kept m (snd (agent_getEmail X i m))"
  "lists_kept m (snd (agent_sendEmail X draft m))"
  "lists_kept m (snd (agent_createDraft X draft m))"
  "lists_kept m (snd (agent_searchEmails X q n m))"
  "lists_kept m (snd (agent_getUnreadEmails X n m))"
  "lists_kept m (snd (agent_markAsRead X i m))"
  "lists_kept m (snd (agent_deleteEmail X i m))"
  "lists_kept m (snd (agent_getEmailContext X i m))"
  "lists_kept m (snd (agent_analyzeEmailThread X i m))"
  by (simp_all add: agent_readFile_def agent_writeFile_def agent_editFile_def
      agent_executeCommand_def agent_listFiles_def agent_listEmails_def agent_getEmail_def
      agent_sendEmail_def agent_createDraft_def agent_searchEmails_def
      agent_getUnreadEmails_def agent_markAsRead_def agent_deleteEmail_def
      agent_getEmailContext_def agent_analyzeEmailThread_def
      kept_readFile kept_writeFile kept_editFile kept_listFiles kept_executeCommand
      kept_gmail_cases)

lemma kept_setCurrentDirectory: "lists_kept m (setCurrentDirectory X d m)"
  by (simp add: setCurrentDirectory_def lists_kept_def)

lemma kept_handleSpecialCommands:
  "handleSpecialCommands X input m = Handled m' \<Longrightarrow> lists_kept m m'"
  by (auto simp: handleSpecialCommands_def Let_def split: if_splits)

lemma kept_handleBuiltInCommands:
  "handleBuiltInCommands X input m = Handled m' \<Longrightarrow> lists_kept m m'"
  unfolding handleBuiltInCommands_def Let_def
  by (auto simp: kept_agent_methods kept_setCurrentDirectory split: if_splits)

lemma kept_cli_turn: "cli_turn X input m = Some m' \<Longrightarrow> lists_kept m m'"
  unfolding cli_turn_def
  by (auto simp: kept_processMessage split: if_splits handled.splits
      dest: kept_handleSpecialCommands kept_handleBuiltInCommands)

lemma constructed_lists_empty:
  "stringArrays (heap (CodingAgent_new X config gmailConfig h0 w))
      (recentFiles (agent_context (CodingAgent_new X config gmailConfig h0 w))) = []
   \<and> stringArrays (heap (CodingAgent_new X config gmailConfig h0 w))
      (recentCommands (agent_context (CodingAgent_new X config gmailConfig h0 w))) = []"
  by (simp add: CodingAgent_new_def new_array_def Let_def)

lemma empty_kept:
  assumes "lists_kept m m'"
    and "stringArrays (heap m) (recentFiles (agent_context m)) = []
         \<and> stringArrays (heap m) (recentCommands (agent_context m)) = []"
  shows "stringArrays (heap m') (recentFiles (agent_context m')) = []
         \<and> stringArrays (heap m') (recentCommands (agent_context m')) = []"
  using assms by (simp add: lists_kept_def)

text \<open>
  C10. In every state the agent reaches, the arrays recentFiles and recentCommands of
  its Context are empty: the constructor makes them empty, and no operation of the
  agent (processMessage, the dispatch loop, a direct tool method, setCurrentDirectory,
  a round of the command line) writes to an array of strings or replaces the two
  references.
\<close>

theorem recent_lists_stay_empty:
  "reachable X m \<Longrightarrow>
     stringArrays (heap m) (recentFiles (agent_context m)) = []
     \<and> stringArrays (heap m) (recentCommands (agent_context m)) = []"
proof (induction rule: reachable.induct)
  case (constructed config gmailConfig h0 w)
  show ?case by (rule constructed_lists_empty)
next
  case (turned m input m')
  from empty_kept[OF kept_cli_turn[OF turned.hyps(2)] turned.IH] show ?case .
qed (rule empty_kept,
     rule kept_agent_methods kept_processMessage kept_parseAndExecuteTools
       kept_setCurrentDirectory,
     assumption)+

theorem recent_lists_stay_empty_witness:
  "reachable demo_externals
     (snd (processMessage demo_externals (js ''hello'')
        (setCurrentDirectory demo_externals (js ''src'') demo_machine)))
   \<and> stringArrays
        (heap (snd (processMessage demo_externals (js ''hello'')
           (setCurrentDirectory demo_externals (js ''src'') demo_machine))))
        (recentFiles (agent_context (snd (processMessage demo_externals (js ''hello'')
           (setCurrentDirectory demo_externals (js ''src'') demo_machine))))) = []
   \<and> stringArrays
        (heap (snd (processMessage demo_externals (js ''hello'')
           (setCurrentDirectory demo_externals (js ''src'') demo_machine))))
        (recentCommands (agent_context (snd (processMessage demo_externals (js ''hello'')
           (setCurrentDirectory demo_externals (js ''src'') demo_machine))))) = []"
proof -
  have "reachable demo_externals demo_machine"
    unfolding demo_machine_def by (rule reachable.constructed)
  then have "reachable demo_externals (setCurrentDirectory demo_externals (js ''src'') demo_machine)"
    by (rule reachable.did_setCurrentDirectory)
  then have r: "reachable demo_externals
     (snd (processMessage demo_externals (js ''hello'')
        (setCurrentDirectory demo_externals (js ''src'') demo_machine)))"
    by (rule reachable.processed)
  from r recent_lists_stay_empty[OF r] show ?thesis by blast
qed

section \<open>Order and arguments of the extracted calls\<close>

lemma js_join_Cons: "js_join sep ((c # t) # ts) = c # js_join sep (t # ts)"
  by (cases ts) auto

lemma js_split_join: "js_join [sep] (js_split sep s) = s"
proof (induction s)
  case Nil
  then show ?case by simp
next
  case (Cons c cs)
  obtain t ts where sp: "js_split sep cs = t # ts"
    using js_split_not_empty[of sep cs] by (cases "js_split sep cs") auto
  with Cons show ?case by (simp add: js_join_Cons)
qed

lemma js_split_no_sep: "t \<in> set (js_split sep s) \<Longrightarrow> sep \<notin> set t"
proof (induction s arbitrary: t)
  case Nil
  then show ?case by simp
next
  case (Cons c cs)
  obtain u us where sp: "js_split sep cs = u # us"
    using js_split_not_empty[of sep cs] by (cases "js_split sep cs") auto
  with Cons show ?case by (auto split: if_splits)
qed

lemma js_trim_shape:
  "\<exists>l r. s = l @ js_trim s @ r \<and> list_all isSpace l \<and> list_all isSpace r
     \<and> (js_trim s = [] \<or> (\<not> isSpace (hd (js_trim s)) \<and> \<not> isSpace (last (js_trim s))))"
proof -
  let ?d = "dropWhile isSpace s"
  let ?l = "takeWhile isSpace s"
  let ?r = "rev (takeWhile isSpace (rev ?d))"
  have d: "?d = js_trim s @ ?r"
  proof -
    have "js_trim s @ ?r = rev (takeWhile isSpace (rev ?d) @ dropWhile isSpace (rev ?d))"
      unfolding js_trim_def by (simp only: rev_append)
    also have "\<dots> = rev (rev ?d)" by (simp only: takeWhile_dropWhile_id)
    finally show ?thesis by simp
  qed
  have s: "s = ?l @ js_trim s @ ?r" using d by (metis takeWhile_dropWhile_id)
  have l: "list_all isSpace ?l" by (simp add: list_all_iff) (meson set_takeWhileD)
  have r: "list_all isSpace ?r" by (simp add: list_all_iff) (meson set_takeWhileD)
  have ends: "\<not> isSpace (hd (js_trim s)) \<and> \<not> isSpace (last (js_trim s))" if ne: "js_trim s \<noteq> []"
  proof -
    from ne d have dne: "?d \<noteq> []" by (metis Nil_is_append_conv)
    from ne d have "hd (js_trim s) = hd ?d" by (metis hd_append2)
    moreover from dne have "\<not> isSpace (hd ?d)" by (rule hd_dropWhile)
    moreover from ne have rne: "dropWhile isSpace (rev ?d) \<noteq> []" by (simp add: js_trim_def)
    then have "\<not> isSpace (hd (dropWhile isSpace (rev ?d)))" by (rule hd_dropWhile)
    moreover from rne have "last (js_trim s) = hd (dropWhile isSpace (rev ?d))"
      by (simp add: js_trim_def last_rev)
    ultimately show ?thesis by simp
  qed
  from s l r ends show ?thesis by blast
qed

lemma scan_weave:
  "\<exists>gaps. length gaps = Suc (length (scan prev s)) \<and> s = weave gaps (scan prev s)"
proof (induction prev s rule: scan.induct)
  case (1 prev)
  have "length [[]::jsstring] = Suc (length (scan prev [])) \<and> [] = weave [[]] (scan prev [])"
    by simp
  then show ?case by blast
next
  case (2 prev c cs)
  let ?b = "(case prev of None \<Rightarrow> False | Some p \<Rightarrow> isWord p) \<noteq> isWord c"
  have skip: ?case if sc: "scan prev (c # cs) = scan (Some c) cs"
    and ih: "\<exists>gaps. length gaps = Suc (length (scan (Some c) cs)) \<and> cs = weave gaps (scan (Some c) cs)"
  proof -
    from ih obtain gaps where g: "length gaps = Suc (length (scan (Some c) cs))"
      "cs = weave gaps (scan (Some c) cs)" by blast
    then obtain g0 gs where gg: "gaps = g0 # gs" by (cases gaps) auto
    have "c # cs = weave ((c # g0) # gs) (scan (Some c) cs)"
      using g(2) gg by (cases "scan (Some c) cs") auto
    with g(1) gg sc have "length ((c # g0) # gs) = Suc (length (scan prev (c # cs)))
        \<and> c # cs = weave ((c # g0) # gs) (scan prev (c # cs))" by simp
    then show ?thesis by blast
  qed
  show ?case
  proof (cases ?b)
    case False
    then have "scan prev (c # cs) = scan (Some c) cs" by simp
    with skip "2.IH"(3)[OF False] show ?thesis by blast
  next
    case True
    show ?thesis
    proof (cases "match_names toolNames (c # cs)")
      case None
      with True have "scan prev (c # cs) = scan (Some c) cs" by simp
      with skip "2.IH"(1)[OF True None] show ?thesis by blast
    next
      case (Some r)
      obtain m rest where r: "r = (m, rest)" by (cases r) auto
      from match_names_shape[OF Some[unfolded r]] have cs: "c # cs = m @ rest" by blast
      from "2.IH"(2)[OF True Some r[symmetric]] obtain gaps where
        g: "length gaps = Suc (length (scan (Some 41) rest))"
        "rest = weave gaps (scan (Some 41) rest)" by blast
      from True Some r have sc: "scan prev (c # cs) = m # scan (Some 41) rest" by simp
      have "length ([] # gaps) = Suc (length (scan prev (c # cs)))
          \<and> c # cs = weave ([] # gaps) (scan prev (c # cs))"
        using g cs sc by simp
      then show ?thesis by blast
    qed
  qed
qed

lemma scan_no_paren: "40 \<notin> set s \<Longrightarrow> scan prev s = []"
proof (induction prev s rule: scan.induct)
  case (1 prev)
  then show ?case by simp
next
  case (2 prev c cs)
  have none: "match_names toolNames (c # cs) = None"
  proof (cases "match_names toolNames (c # cs)")
    case None
    then show ?thesis .
  next
    case (Some r)
    obtain m rest where r: "r = (m, rest)" by (cases r) auto
    from match_names_shape[OF Some[unfolded r]] obtain n ws as where
      e: "c # cs = m @ rest" "m = n @ ws @ [40] @ as @ [41]" by blast
    from e(2) have "40 \<in> set m" by simp
    then have "40 \<in> set (m @ rest)" by simp
    with e(1) have "40 \<in> set (c # cs)" by simp
    with "2.prems" show ?thesis by blast
  qed
  from "2.prems" have tl: "40 \<notin> set cs" by simp
  show ?case
  proof (cases "(case prev of None \<Rightarrow> False | Some p \<Rightarrow> isWord p) \<noteq> isWord c")
    case True
    with none "2.IH"(1)[OF True none tl] show ?thesis by simp
  next
    case False
    with "2.IH"(3)[OF False tl] show ?thesis by simp
  qed
qed

lemma first_paren_unique:
  fixes xs :: jsstring
  assumes "40 \<notin> set xs" "40 \<notin> set xs'" "xs @ 40 # ys = xs' @ 40 # ys'"
  shows "xs = xs'"
proof -
  have a: "\<forall>x \<in> set xs. x \<noteq> 40" and b: "\<forall>x \<in> set xs'. x \<noteq> 40"
    using assms(1,2) by auto
  have "takeWhile (\<lambda>c. c \<noteq> 40) (xs @ 40 # ys) = xs" using a by simp
  moreover have "takeWhile (\<lambda>c. c \<noteq> 40) (xs' @ 40 # ys') = xs'" using b by simp
  ultimately show ?thesis using assms(3) by simp
qed

lemma word_no_paren: "list_all isWord n \<Longrightarrow> 40 \<notin> set n"
  by (auto simp: list_all_iff isWord_def)

lemma space_no_paren: "list_all isSpace ws \<Longrightarrow> 40 \<notin> set ws"
  by (auto simp: list_all_iff isSpace_def)

lemma no_match_before:
  assumes p: "p \<noteq> []" "40 \<notin> set p"
    and t: "tname \<noteq> []" "list_all isWord tname"
    and ends: "\<forall>n' \<in> set toolNames. \<not> (length tname < length n'
                 \<and> drop (length n' - length tname) n' = tname)"
  shows "match_names toolNames (p @ tname @ 40 # rest) = None"
proof (cases "match_names toolNames (p @ tname @ 40 # rest)")
  case None
  then show ?thesis .
next
  case (Some r)
  obtain m rest' where r: "r = (m, rest')" by (cases r) auto
  from match_names_shape[OF Some[unfolded r]] obtain n' ws as where
    n': "n' \<in> set toolNames" and eq: "p @ tname @ 40 # rest = m @ rest'"
    and m: "m = n' @ ws @ [40] @ as @ [41]" and ws: "list_all isSpace ws" by blast
  from eq m have eq2: "(p @ tname) @ 40 # rest = (n' @ ws) @ 40 # (as @ [41] @ rest')" by simp
  have l: "40 \<notin> set (p @ tname)" using p(2) word_no_paren[OF t(2)] by simp
  have rr: "40 \<notin> set (n' @ ws)"
    using toolNames_word[OF n'] word_no_paren[of n'] space_no_paren[OF ws] by simp
  from first_paren_unique[OF l rr eq2] have pe: "p @ tname = n' @ ws" .
  have "ws = []"
  proof (rule ccontr)
    assume "ws \<noteq> []"
    then have "last (n' @ ws) = last ws" by simp
    moreover have "last (p @ tname) = last tname" using t(1) by simp
    moreover have "isSpace (last ws)" using ws \<open>ws \<noteq> []\<close> by (simp add: list_all_iff)
    moreover have "isWord (last tname)" using t by (simp add: list_all_iff)
    ultimately show False using pe space_not_word by metis
  qed
  with pe have "n' = p @ tname" by simp
  with p(1) have "length tname < length n' \<and> drop (length n' - length tname) n' = tname" by simp
  with ends n' show ?thesis by blast
qed

lemma scan_skip:
  assumes "40 \<notin> set p" "tname \<noteq> []" "list_all isWord tname"
    and "\<forall>n' \<in> set toolNames. \<not> (length tname < length n'
                 \<and> drop (length n' - length tname) n' = tname)"
  shows "scan prev (p @ tname @ 40 # rest)
         = scan (if p = [] then prev else Some (last p)) (tname @ 40 # rest)"
  using assms(1)
proof (induction p arbitrary: prev)
  case Nil
  then show ?case by simp
next
  case (Cons c p)
  from Cons.prems have np: "40 \<notin> set p" by simp
  from no_match_before[of "c # p" tname rest] Cons.prems assms(2,3,4)
  have none: "match_names toolNames (c # p @ tname @ 40 # rest) = None" by simp
  then have "scan prev ((c # p) @ tname @ 40 # rest) = scan (Some c) (p @ tname @ 40 # rest)"
    by simp
  also have "\<dots> = scan (if p = [] then Some c else Some (last p)) (tname @ 40 # rest)"
    by (rule Cons.IH[OF np])
  finally show ?case by simp
qed


lemma scan_at_match:
  assumes "match_names toolNames (c # cs) = Some (m, rest)"
    and "(case prev of None \<Rightarrow> False | Some p \<Rightarrow> isWord p) \<noteq> isWord c"
  shows "scan prev (c # cs) = m # scan (Some 41) rest"
  using assms by simp

lemma extract_read_then_write:
  assumes pre: "40 \<notin> set pre" "pre = [] \<or> \<not> isWord (last pre)"
    and mid: "40 \<notin> set mid" "mid = [] \<or> \<not> isWord (last mid)"
    and post: "40 \<notin> set post"
  shows "extractCalls (pre @ js ''readFile(a.txt)'' @ mid @ js ''writeFile(b.txt, hi)'' @ post)
     = [(js ''readFile'', [js ''a.txt'']), (js ''writeFile'', [js ''b.txt'', js ''hi''])]"
proof -
  define tR where "tR = js ''readFile''"
  define aR where "aR = js ''a.txt''"
  define tW where "tW = js ''writeFile''"
  define aW where "aW = js ''b.txt, hi''"
  define R3 where "R3 = aW @ 41 # post"
  define R2 where "R2 = mid @ tW @ 40 # R3"
  define R1 where "R1 = aR @ 41 # R2"
  have A: "js ''readFile(a.txt)'' = tR @ 40 # aR @ [41]"
    and B: "js ''writeFile(b.txt, hi)'' = tW @ 40 # aW @ [41]"
    by (simp_all add: tR_def aR_def tW_def aW_def js_def)
  have whole: "pre @ js ''readFile(a.txt)'' @ mid @ js ''writeFile(b.txt, hi)'' @ post
      = pre @ tR @ 40 # R1"
    unfolding A B R1_def R2_def R3_def by simp
  have tRw: "tR \<noteq> []" "list_all isWord tR" and tWw: "tW \<noteq> []" "list_all isWord tW"
    by (simp_all add: tR_def tW_def js_def isWord_def)
  have endsR: "\<forall>n' \<in> set toolNames. \<not> (length tR < length n'
                 \<and> drop (length n' - length tR) n' = tR)"
    by (simp add: toolNames_def tR_def js_def)
  have endsW: "\<forall>n' \<in> set toolNames. \<not> (length tW < length n'
                 \<and> drop (length n' - length tW) n' = tW)"
    by (simp add: toolNames_def tW_def js_def)
  have aRok: "aR \<noteq> []" "41 \<notin> set aR" and aWok: "aW \<noteq> []" "41 \<notin> set aW"
    by (simp_all add: aR_def aW_def js_def)
  obtain others where names: "toolNames = tR # tW # others"
    by (simp add: toolNames_def tR_def tW_def)
  have argsR: "match_args (40 # aR @ 41 # R2) = Some ([], aR, R2)"
    using match_args_intro[of "[]" aR R2] aRok by simp
  have argsW: "match_args (40 # aW @ 41 # post) = Some ([], aW, post)"
    using match_args_intro[of "[]" aW post] aWok by simp
  have matchR: "match_names toolNames (tR @ 40 # R1) = Some (tR @ 40 # aR @ [41], R2)"
    unfolding names R1_def by (simp add: argsR)
  have notR: "\<not> prefix tR (tW @ 40 # R3)"
    by (simp add: tR_def tW_def js_def)
  have matchW: "match_names toolNames (tW @ 40 # R3) = Some (tW @ 40 # aW @ [41], post)"
    unfolding names R3_def using notR[unfolded R3_def] by (simp add: argsW)
  obtain cR tR' where cR: "tR = cR # tR'" "isWord cR"
    using tRw by (cases tR) auto
  obtain cW tW' where cW: "tW = cW # tW'" "isWord cW"
    using tWw by (cases tW) auto
  let ?prev1 = "if pre = [] then None else Some (last pre)"
  let ?prev2 = "if mid = [] then Some 41 else Some (last mid)"
  have b1: "(case ?prev1 of None \<Rightarrow> False | Some p \<Rightarrow> isWord p) \<noteq> isWord cR"
    using pre(2) cR(2) by auto
  have b2: "(case ?prev2 of None \<Rightarrow> False | Some p \<Rightarrow> isWord p) \<noteq> isWord cW"
    using mid(2) cW(2) by (auto simp: isWord_def)
  have "scan None (pre @ tR @ 40 # R1) = scan ?prev1 (tR @ 40 # R1)"
    by (rule scan_skip[OF pre(1) tRw endsR])
  also have "\<dots> = (tR @ 40 # aR @ [41]) # scan (Some 41) R2"
    using scan_at_match[of cR "tR' @ 40 # R1" "tR @ 40 # aR @ [41]" R2 ?prev1] matchR b1 cR(1)
    by simp
  also have "scan (Some 41) R2 = scan ?prev2 (tW @ 40 # R3)"
    unfolding R2_def by (rule scan_skip[OF mid(1) tWw endsW])
  also have "\<dots> = (tW @ 40 # aW @ [41]) # scan (Some 41) post"
    using scan_at_match[of cW "tW' @ 40 # R3" "tW @ 40 # aW @ [41]" post ?prev2] matchW b2 cW(1)
    by simp
  also have "scan (Some 41) post = []"
    by (rule scan_no_paren[OF post])
  finally have calls: "toolCalls (pre @ tR @ 40 # R1) = [tR @ 40 # aR @ [41], tW @ 40 # aW @ [41]]"
    by (simp add: toolCalls_def)
  have "list_all isSpace []" by simp
  from match_call_recovers[OF tRw this aRok]
  have mcR: "match_call (tR @ 40 # aR @ [41]) = Some (tR, aR)" by simp
  from match_call_recovers[OF tWw \<open>list_all isSpace []\<close> aWok]
  have mcW: "match_call (tW @ 40 # aW @ [41]) = Some (tW, aW)" by simp
  have paR: "parse_args aR = [js ''a.txt'']"
    by (simp add: aR_def js_def parse_args_def strip_quotes_def js_trim_def isSpace_def)
  have paW: "parse_args aW = [js ''b.txt'', js ''hi'']"
    by (simp add: aW_def js_def parse_args_def strip_quotes_def js_trim_def isSpace_def)
  show ?thesis
    unfolding whole extractCalls_def calls
    by (simp add: mcR mcW paR paW) (simp add: tR_def tW_def)
qed

text \<open>
  C2, as amended. The matches are consecutive pieces of the response, left to right: the
  response is a gap, the first match, a gap, the second match, and so on. Every
  extracted call is the name and the arguments of its match: the text between the
  parentheses is split at the commas (joining the tokens with commas gives the text
  back, and no token has a comma), each token is trimmed (only white space is removed,
  at both ends, and none is left there), and then every quote character in the token
  is removed, not only the surrounding ones. For a response in which
  \<^verbatim>\<open>readFile(a.txt)\<close> is followed later by \<^verbatim>\<open>writeFile(b.txt, hi)\<close>, each behind the
  start of the text or a code unit that is not a word character, with no other opening
  parenthesis in the response, the calls are exactly these two, in this order, with the
  arguments \<^verbatim>\<open>["a.txt"]\<close> and \<^verbatim>\<open>["b.txt", "hi"]\<close>.
\<close>

theorem extractor_order_and_arguments:
  "(\<exists>gaps. length gaps = Suc (length (toolCalls response))
        \<and> response = weave gaps (toolCalls response))
   \<and> list_all2 (\<lambda>m (f, args). \<exists>ws as. f \<in> set toolNames \<and> list_all isSpace ws \<and> as \<noteq> []
        \<and> 41 \<notin> set as \<and> m = f @ ws @ [40] @ as @ [41]
        \<and> args = map (\<lambda>token. filter (\<lambda>c. c \<noteq> 39 \<and> c \<noteq> 34) (js_trim token)) (js_split 44 as))
       (toolCalls response) (extractCalls response)
   \<and> js_join [44] (js_split 44 s) = s
   \<and> (\<forall>token \<in> set (js_split 44 s). 44 \<notin> set token)
   \<and> (\<exists>l r. s = l @ js_trim s @ r \<and> list_all isSpace l \<and> list_all isSpace r
        \<and> (js_trim s = [] \<or> (\<not> isSpace (hd (js_trim s)) \<and> \<not> isSpace (last (js_trim s)))))
   \<and> (40 \<notin> set pre \<and> (pre = [] \<or> \<not> isWord (last pre))
        \<and> 40 \<notin> set mid \<and> (mid = [] \<or> \<not> isWord (last mid)) \<and> 40 \<notin> set post \<longrightarrow>
      extractCalls (pre @ js ''readFile(a.txt)'' @ mid @ js ''writeFile(b.txt, hi)'' @ post)
        = [(js ''readFile'', [js ''a.txt'']), (js ''writeFile'', [js ''b.txt'', js ''hi''])])"
proof (intro conjI impI)
  show "\<exists>gaps. length gaps = Suc (length (toolCalls response))
        \<and> response = weave gaps (toolCalls response)"
    unfolding toolCalls_def by (rule scan_weave)
  from extractCalls_matches[of response]
  show "list_all2 (\<lambda>m (f, args). \<exists>ws as. f \<in> set toolNames \<and> list_all isSpace ws \<and> as \<noteq> []
        \<and> 41 \<notin> set as \<and> m = f @ ws @ [40] @ as @ [41]
        \<and> args = map (\<lambda>token. filter (\<lambda>c. c \<noteq> 39 \<and> c \<noteq> 34) (js_trim token)) (js_split 44 as))
       (toolCalls response) (extractCalls response)"
    by (simp add: parse_args_def strip_quotes_def)
  show "js_join [44] (js_split 44 s) = s" by (rule js_split_join)
  show "\<forall>token \<in> set (js_split 44 s). 44 \<notin> set token" using js_split_no_sep by blast
  show "\<exists>l r. s = l @ js_trim s @ r \<and> list_all isSpace l \<and> list_all isSpace r
        \<and> (js_trim s = [] \<or> (\<not> isSpace (hd (js_trim s)) \<and> \<not> isSpace (last (js_trim s))))"
    by (rule js_trim_shape)
next
  assume "40 \<notin> set pre \<and> (pre = [] \<or> \<not> isWord (last pre))
        \<and> 40 \<notin> set mid \<and> (mid = [] \<or> \<not> isWord (last mid)) \<and> 40 \<notin> set post"
  then show "extractCalls (pre @ js ''readFile(a.txt)'' @ mid @ js ''writeFile(b.txt, hi)'' @ post)
        = [(js ''readFile'', [js ''a.txt'']), (js ''writeFile'', [js ''b.txt'', js ''hi''])]"
    using extract_read_then_write by blast
qed

text \<open>
  C2, as stated, fails three times: a response that contains both calls and a third one
  between them yields three calls; a response in which \<^verbatim>\<open>readFile(a.txt)\<close> follows a
  letter yields only the second call; and a quote character inside a token is removed
  as well.
\<close>

theorem extractor_counterexample:
  "extractCalls (js ''readFile(a.txt) listFiles(.) writeFile(b.txt, hi)'')
     = [(js ''readFile'', [js ''a.txt'']), (js ''listFiles'', [js ''.'']),
        (js ''writeFile'', [js ''b.txt'', js ''hi''])]
   \<and> extractCalls (js ''xreadFile(a.txt) writeFile(b.txt, hi)'')
     = [(js ''writeFile'', [js ''b.txt'', js ''hi''])]
   \<and> extractCalls (js ''readFile(it'' @ [39] @ js ''s.txt)'') = [(js ''readFile'', [js ''its.txt''])]"
  by (simp add: extractCalls_def toolCalls_def toolNames_def js_def match_args_def
      match_call_at_def parse_args_def strip_quotes_def js_trim_def isWord_def isSpace_def)

theorem extractor_order_and_arguments_witness:
  "40 \<notin> set (js ''First '') \<and> \<not> isWord (last (js ''First ''))
   \<and> 40 \<notin> set (js '', then '') \<and> \<not> isWord (last (js '', then ''))
   \<and> 40 \<notin> set (js ''.'')
   \<and> extractCalls (js ''First '' @ js ''readFile(a.txt)'' @ js '', then ''
        @ js ''writeFile(b.txt, hi)'' @ js ''.'')
      = [(js ''readFile'', [js ''a.txt'']), (js ''writeFile'', [js ''b.txt'', js ''hi''])]"
proof -
  have h: "40 \<notin> set (js ''First '') \<and> (js ''First '' = [] \<or> \<not> isWord (last (js ''First '')))
        \<and> 40 \<notin> set (js '', then '') \<and> (js '', then '' = [] \<or> \<not> isWord (last (js '', then '')))
        \<and> 40 \<notin> set (js ''.'')"
    by (simp add: js_def isWord_def)
  from extractor_order_and_arguments[of _ _ "js ''First ''" "js '', then ''" "js ''.''"] h
  have "extractCalls (js ''First '' @ js ''readFile(a.txt)'' @ js '', then ''
        @ js ''writeFile(b.txt, hi)'' @ js ''.'')
      = [(js ''readFile'', [js ''a.txt'']), (js ''writeFile'', [js ''b.txt'', js ''hi''])]"
    by blast
  moreover have "\<not> isWord (last (js ''First ''))" "\<not> isWord (last (js '', then ''))"
    by (simp_all add: js_def isWord_def)
  ultimately show ?thesis using h by blast
qed

end
